theory Spec2Isabelle
  imports Main "HOL-Library.Word"
begin

section \<open>JavaScript strings and values\<close>

text \<open>
  A JavaScript string is a sequence of 16-bit code units. Literals of the source are
  written \<open>js ''...''\<close>; code units outside ASCII are written as numbers.
\<close>

type_synonym code_unit = "16 word"
type_synonym jsstring = "code_unit list"

definition js :: "string \<Rightarrow> jsstring" where
  "js s = map of_char s"

text \<open>
  The values \<open>JSON.parse\<close> can produce, and \<open>null\<close>. A number keeps its exact
  decimal reading \<open>(-1)^neg * m * 10^e\<close>; the double it is rounded to is only needed
  for truthiness. An object keeps its members in source order, duplicates included; a
  property read takes the last one, as the runtime's object would hold it.
\<close>

datatype json =
    JNull
  | JBoolean bool
  | JNumber bool nat int
  | JString jsstring
  | JArray "json list"
  | JObject "(jsstring \<times> json) list"

text \<open>
  \<open>ToBoolean\<close>: \<open>null\<close>, \<open>false\<close>, \<open>+0\<close>, \<open>-0\<close> and the empty string are falsy.
  A decimal rounds to zero exactly when its magnitude is at most \<open>2^-1075\<close>, half of
  the least positive double (the tie goes to the even neighbour, zero). No property
  below depends on the truthiness of a number.
\<close>

fun truthy :: "json \<Rightarrow> bool" where
  "truthy JNull = False"
| "truthy (JBoolean b) = b"
| "truthy (JNumber neg m e) =
     (if 0 \<le> e then m \<noteq> 0 else 10 ^ nat (- e) < m * 2 ^ 1075)"
| "truthy (JString s) = (s \<noteq> [])"
| "truthy (JArray vs) = True"
| "truthy (JObject ms) = True"

text \<open>Property read \<open>v.k\<close> on a parsed value: \<open>None\<close> is \<open>undefined\<close>.\<close>

fun get_member :: "(jsstring \<times> json) list \<Rightarrow> jsstring \<Rightarrow> json option" where
  "get_member [] k = None"
| "get_member ((k', v) # ms) k =
     (case get_member ms k of
        Some w \<Rightarrow> Some w
      | None \<Rightarrow> if k' = k then Some v else None)"

section \<open>JSON.parse\<close>

text \<open>
  The runtime's \<open>JSON.parse\<close> (ECMA-262, no reviver), as a lexer and a recursive
  descent parser over the JSON grammar. \<open>None\<close> is the thrown \<open>SyntaxError\<close>.
\<close>

datatype token =
    TLBrace | TRBrace | TLBracket | TRBracket | TColon | TComma
  | TTrue | TFalse | TNull
  | TNumber bool nat int
  | TString jsstring

definition isJSONWhitespace :: "code_unit \<Rightarrow> bool" where
  "isJSONWhitespace c = (c = 0x20 \<or> c = 0x09 \<or> c = 0x0A \<or> c = 0x0D)"

definition isDigit :: "code_unit \<Rightarrow> bool" where
  "isDigit c = (0x30 \<le> c \<and> c \<le> 0x39)"

definition hexVal :: "code_unit \<Rightarrow> code_unit option" where
  "hexVal c =
     (if 0x30 \<le> c \<and> c \<le> 0x39 then Some (c - 0x30)
      else if 0x41 \<le> c \<and> c \<le> 0x46 then Some (c - 0x37)
      else if 0x61 \<le> c \<and> c \<le> 0x66 then Some (c - 0x57)
      else None)"

definition decimal :: "jsstring \<Rightarrow> nat" where
  "decimal ds = foldl (\<lambda>n d. 10 * n + (unat d - 48)) 0 ds"

text \<open>The single-character escapes: \<open>\" \\ \/ \b \f \n \r \t\<close>.\<close>

definition unescape :: "code_unit \<Rightarrow> code_unit option" where
  "unescape e =
     (if e = 0x22 then Some 0x22
      else if e = 0x5C then Some 0x5C
      else if e = 0x2F then Some 0x2F
      else if e = 0x62 then Some 0x08
      else if e = 0x66 then Some 0x0C
      else if e = 0x6E then Some 0x0A
      else if e = 0x72 then Some 0x0D
      else if e = 0x74 then Some 0x09
      else None)"

definition hex4 :: "jsstring \<Rightarrow> code_unit option" where
  "hex4 hs =
     (case map hexVal hs of
        [Some a, Some b, Some c, Some d] \<Rightarrow> Some (((a * 16 + b) * 16 + c) * 16 + d)
      | _ \<Rightarrow> None)"

text \<open>
  The characters of a string after its opening quote, up to the closing quote: the
  decoded string and the rest of the input. A raw control character (below \<open>0x20\<close>)
  and an unknown escape are errors.
\<close>

fun lex_string :: "jsstring \<Rightarrow> (jsstring \<times> jsstring) option" where
  "lex_string [] = None"
| "lex_string (c # cs) =
     (if c = 0x22 then Some ([], cs)
      else if c = 0x5C then
        (case cs of
           [] \<Rightarrow> None
         | e # cs' \<Rightarrow>
             if e = 0x75 then
               (case hex4 (take 4 cs') of
                  None \<Rightarrow> None
                | Some u \<Rightarrow> map_option (\<lambda>(s, r). (u # s, r)) (lex_string (drop 4 cs')))
             else
               (case unescape e of
                  None \<Rightarrow> None
                | Some u \<Rightarrow> map_option (\<lambda>(s, r). (u # s, r)) (lex_string cs')))
      else if c < 0x20 then None
      else map_option (\<lambda>(s, r). (c # s, r)) (lex_string cs))"

text \<open>
  A number: \<open>-? (0 | [1-9][0-9]*) (. [0-9]+)? ([eE] [+-]? [0-9]+)?\<close>. A leading
  zero ends the integer part.
\<close>

definition lex_int :: "jsstring \<Rightarrow> (jsstring \<times> jsstring) option" where
  "lex_int cs =
     (case cs of
        [] \<Rightarrow> None
      | c # r \<Rightarrow>
          if c = 0x30 then Some ([c], r)
          else if isDigit c then Some (takeWhile isDigit cs, dropWhile isDigit cs)
          else None)"

definition lex_frac :: "jsstring \<Rightarrow> (jsstring \<times> jsstring) option" where
  "lex_frac cs =
     (case cs of
        c # r \<Rightarrow>
          if c = 0x2E then
            (if takeWhile isDigit r = [] then None
             else Some (takeWhile isDigit r, dropWhile isDigit r))
          else Some ([], cs)
      | [] \<Rightarrow> Some ([], cs))"

definition lex_digits1 :: "bool \<Rightarrow> jsstring \<Rightarrow> (int \<times> jsstring) option" where
  "lex_digits1 neg cs =
     (if takeWhile isDigit cs = [] then None
      else Some ((if neg then - int (decimal (takeWhile isDigit cs))
                  else int (decimal (takeWhile isDigit cs))),
                 dropWhile isDigit cs))"

definition lex_exp :: "jsstring \<Rightarrow> (int \<times> jsstring) option" where
  "lex_exp cs =
     (case cs of
        c # r \<Rightarrow>
          if c = 0x65 \<or> c = 0x45 then
            (case r of
               s # r' \<Rightarrow>
                 if s = 0x2B then lex_digits1 False r'
                 else if s = 0x2D then lex_digits1 True r'
                 else lex_digits1 False r
             | [] \<Rightarrow> None)
          else Some (0, cs)
      | [] \<Rightarrow> Some (0, cs))"

definition lex_number :: "jsstring \<Rightarrow> (token \<times> jsstring) option" where
  "lex_number cs =
     (let neg = (case cs of c # r \<Rightarrow> c = 0x2D | [] \<Rightarrow> False);
          cs1 = (if neg then tl cs else cs)
      in case lex_int cs1 of
           None \<Rightarrow> None
         | Some (ip, cs2) \<Rightarrow>
             (case lex_frac cs2 of
                None \<Rightarrow> None
              | Some (fp, cs3) \<Rightarrow>
                  (case lex_exp cs3 of
                     None \<Rightarrow> None
                   | Some (ex, cs4) \<Rightarrow>
                       Some (TNumber neg (decimal (ip @ fp)) (ex - int (length fp)), cs4))))"

lemma lex_string_shorter:
  "lex_string cs = Some (s, r) \<Longrightarrow> length r < length cs"
proof (induction cs arbitrary: s r rule: lex_string.induct)
  case 1
  then show ?case by simp
next
  case (2 c cs)
  show ?case
  proof (cases "c = 0x22")
    case True
    with "2.prems" show ?thesis by simp
  next
    case notq: False
    show ?thesis
    proof (cases "c = 0x5C")
      case False
      with notq "2.prems" "2.IH"(3) show ?thesis
        by (fastforce split: if_splits)
    next
      case bs: True
      show ?thesis
      proof (cases cs)
        case Nil
        with notq bs "2.prems" show ?thesis by simp
      next
        case (Cons e cs')
        show ?thesis
        proof (cases "e = 0x75")
          case True
          with notq bs Cons "2.prems" obtain u s' where
            "hex4 (take 4 cs') = Some u" "lex_string (drop 4 cs') = Some (s', r)"
            by (auto split: option.splits)
          with "2.IH"(1) [OF notq bs Cons True] have "length r < length (drop 4 cs')"
            by blast
          with Cons show ?thesis by simp
        next
          case False
          with notq bs Cons "2.prems" obtain u s' where
            "unescape e = Some u" "lex_string cs' = Some (s', r)"
            by (auto split: option.splits)
          with "2.IH"(2) [OF notq bs Cons False] have "length r < length cs'"
            by blast
          with Cons show ?thesis by simp
        qed
      qed
    qed
  qed
qed

lemma lex_int_shorter: "lex_int cs = Some (ip, r) \<Longrightarrow> length r < length cs"
proof -
  assume a: "lex_int cs = Some (ip, r)"
  show ?thesis
  proof (cases cs)
    case Nil
    with a show ?thesis by (simp add: lex_int_def)
  next
    case (Cons c t)
    have "length (dropWhile isDigit t) \<le> length t" by (rule length_dropWhile_le)
    with a Cons show ?thesis
      by (auto simp: lex_int_def split: if_splits)
  qed
qed

lemma lex_digits1_shorter: "lex_digits1 neg cs = Some (x, r) \<Longrightarrow> length r \<le> length cs"
  using length_dropWhile_le [of isDigit cs]
  by (auto simp: lex_digits1_def split: if_splits)

lemma lex_frac_shorter: "lex_frac cs = Some (fp, r) \<Longrightarrow> length r \<le> length cs"
proof (cases cs)
  case Nil
  assume "lex_frac cs = Some (fp, r)"
  with Nil show ?thesis by (simp add: lex_frac_def)
next
  case (Cons c t)
  assume a: "lex_frac cs = Some (fp, r)"
  have "length (dropWhile isDigit t) \<le> length t" by (rule length_dropWhile_le)
  with a Cons show ?thesis
    by (auto simp: lex_frac_def split: if_splits)
qed

lemma lex_exp_shorter: "lex_exp cs = Some (x, r) \<Longrightarrow> length r \<le> length cs"
proof (cases cs)
  case Nil
  assume "lex_exp cs = Some (x, r)"
  with Nil show ?thesis by (simp add: lex_exp_def)
next
  case (Cons c t)
  assume a: "lex_exp cs = Some (x, r)"
  show ?thesis
  proof (cases t)
    case Nil
    with a Cons show ?thesis
      by (auto simp: lex_exp_def split: if_splits)
  next
    case inner: (Cons s t')
    from a Cons inner show ?thesis
      by (auto simp: lex_exp_def split: if_splits dest!: lex_digits1_shorter)
  qed
qed

lemma lex_number_shorter:
  "lex_number cs = Some (n, r) \<Longrightarrow> length r < length cs"
proof -
  assume a: "lex_number cs = Some (n, r)"
  define cs1 where "cs1 = (if (case cs of c # r \<Rightarrow> c = 0x2D | [] \<Rightarrow> False) then tl cs else cs)"
  from a obtain ip cs2 fp cs3 ex where
    i: "lex_int cs1 = Some (ip, cs2)" and f: "lex_frac cs2 = Some (fp, cs3)"
    and e: "lex_exp cs3 = Some (ex, r)"
    by (auto simp: lex_number_def Let_def cs1_def split: option.splits)
  have "length cs1 \<le> length cs" by (simp add: cs1_def)
  with lex_int_shorter [OF i] lex_frac_shorter [OF f] lex_exp_shorter [OF e]
  show ?thesis by simp
qed

function lex :: "jsstring \<Rightarrow> token list option" where
  "lex [] = Some []"
| "lex (c # cs) =
     (if isJSONWhitespace c then lex cs
      else if c = 0x7B then map_option ((#) TLBrace) (lex cs)
      else if c = 0x7D then map_option ((#) TRBrace) (lex cs)
      else if c = 0x5B then map_option ((#) TLBracket) (lex cs)
      else if c = 0x5D then map_option ((#) TRBracket) (lex cs)
      else if c = 0x3A then map_option ((#) TColon) (lex cs)
      else if c = 0x2C then map_option ((#) TComma) (lex cs)
      else if c = 0x22 then
        (case lex_string cs of
           None \<Rightarrow> None
         | Some (s, r) \<Rightarrow> map_option ((#) (TString s)) (lex r))
      else if c = 0x2D \<or> isDigit c then
        (case lex_number (c # cs) of
           None \<Rightarrow> None
         | Some (n, r) \<Rightarrow> map_option ((#) n) (lex r))
      else if take 4 (c # cs) = js ''true'' then map_option ((#) TTrue) (lex (drop 3 cs))
      else if take 5 (c # cs) = js ''false'' then map_option ((#) TFalse) (lex (drop 4 cs))
      else if take 4 (c # cs) = js ''null'' then map_option ((#) TNull) (lex (drop 3 cs))
      else None)"
  by pat_completeness auto
termination
  by (relation "measure length")
     (auto dest: lex_string_shorter lex_number_shorter)

text \<open>
  The parser over tokens. \<open>expect t ts\<close> takes the token \<open>t\<close> off the front.
  \<open>parse_elements\<close> reads the elements of an array after its opening bracket (at
  least one), \<open>parse_members\<close> the members of an object after its opening brace. The
  test \<open>length r < length ts\<close> on what a nested call leaves over always succeeds
  (lemma \<open>parse_shorter\<close>); it is there for the termination proof, and the
  lemmas \<open>parse_elements_unguarded\<close> and \<open>parse_members_unguarded\<close> give the
  equations without it.
\<close>

fun expect :: "token \<Rightarrow> token list \<Rightarrow> token list option" where
  "expect t [] = None"
| "expect t (t' # ts) = (if t' = t then Some ts else None)"

lemma expect_shorter: "expect t ts = Some r \<Longrightarrow> length r < length ts"
  by (cases ts) (auto split: if_splits)

function parse_value :: "token list \<Rightarrow> (json \<times> token list) option"
  and parse_elements :: "token list \<Rightarrow> (json list \<times> token list) option"
  and parse_members :: "token list \<Rightarrow> ((jsstring \<times> json) list \<times> token list) option"
where
  "parse_value [] = None"
| "parse_value (t # ts) =
     (case t of
        TNull \<Rightarrow> Some (JNull, ts)
      | TTrue \<Rightarrow> Some (JBoolean True, ts)
      | TFalse \<Rightarrow> Some (JBoolean False, ts)
      | TNumber neg m e \<Rightarrow> Some (JNumber neg m e, ts)
      | TString s \<Rightarrow> Some (JString s, ts)
      | TLBracket \<Rightarrow>
          (case expect TRBracket ts of
             Some r \<Rightarrow> Some (JArray [], r)
           | None \<Rightarrow> map_option (\<lambda>(vs, r). (JArray vs, r)) (parse_elements ts))
      | TLBrace \<Rightarrow>
          (case expect TRBrace ts of
             Some r \<Rightarrow> Some (JObject [], r)
           | None \<Rightarrow> map_option (\<lambda>(ms, r). (JObject ms, r)) (parse_members ts))
      | _ \<Rightarrow> None)"
| "parse_elements [] = None"
| "parse_elements (t # ts) =
     (case parse_value (t # ts) of
        None \<Rightarrow> None
      | Some (v, r) \<Rightarrow>
          if length r < length (t # ts) then
            (case expect TRBracket r of
               Some r' \<Rightarrow> Some ([v], r')
             | None \<Rightarrow>
                 (case expect TComma r of
                    Some r' \<Rightarrow> map_option (\<lambda>(vs, r''). (v # vs, r'')) (parse_elements r')
                  | None \<Rightarrow> None))
          else None)"
| "parse_members [] = None"
| "parse_members (t # ts) =
     (case t of
        TString k \<Rightarrow>
          (case expect TColon ts of
             None \<Rightarrow> None
           | Some ts' \<Rightarrow>
               (case parse_value ts' of
                  None \<Rightarrow> None
                | Some (v, r) \<Rightarrow>
                    if length r < length ts' then
                      (case expect TRBrace r of
                         Some r' \<Rightarrow> Some ([(k, v)], r')
                       | None \<Rightarrow>
                           (case expect TComma r of
                              Some r' \<Rightarrow>
                                map_option (\<lambda>(ms, r''). ((k, v) # ms, r'')) (parse_members r')
                            | None \<Rightarrow> None))
                    else None))
      | _ \<Rightarrow> None)"
  by pat_completeness auto

termination
  by (relation "measure (\<lambda>x. case x of
         Inl ts \<Rightarrow> 2 * length ts
       | Inr (Inl ts) \<Rightarrow> 2 * length ts + 1
       | Inr (Inr ts) \<Rightarrow> 2 * length ts + 1)")
     (auto dest!: expect_shorter)

definition JSON_parse :: "jsstring \<Rightarrow> json option" where
  "JSON_parse txt =
     (case lex txt of
        None \<Rightarrow> None
      | Some ts \<Rightarrow>
          (case parse_value ts of
             Some (v, []) \<Rightarrow> Some v
           | _ \<Rightarrow> None))"

lemma parse_shorter:
  "\<And>v r. parse_value ts = Some (v, r) \<Longrightarrow> length r < length ts"
  "\<And>vs r. parse_elements ts1 = Some (vs, r) \<Longrightarrow> length r < length ts1"
  "\<And>ms r. parse_members ts2 = Some (ms, r) \<Longrightarrow> length r < length ts2"
proof (induction ts and ts1 and ts2 rule: parse_value_parse_elements_parse_members.induct)
  case 1
  then show ?case by simp
next
  case (2 t ts)
  show ?case
  proof (cases t)
    case TLBracket
    show ?thesis
    proof (cases "expect TRBracket ts")
      case None
      with TLBracket "2.prems" obtain vs where "parse_elements ts = Some (vs, r)"
        by auto
      with "2.IH"(2) [OF TLBracket None] show ?thesis by fastforce
    next
      case (Some r')
      with TLBracket "2.prems" expect_shorter [OF Some] show ?thesis by simp
    qed
  next
    case TLBrace
    show ?thesis
    proof (cases "expect TRBrace ts")
      case None
      with TLBrace "2.prems" obtain ms where "parse_members ts = Some (ms, r)"
        by auto
      with "2.IH"(1) [OF TLBrace None] show ?thesis by fastforce
    next
      case (Some r')
      with TLBrace "2.prems" expect_shorter [OF Some] show ?thesis by simp
    qed
  qed (use "2.prems" in simp_all)
next
  case 3
  then show ?case by simp
next
  case (4 t ts)
  from "4.prems" obtain v r0 where
    pv: "parse_value (t # ts) = Some (v, r0)" and lt: "length r0 < length (t # ts)"
    by (auto split: option.splits if_splits simp del: parse_value.simps)
  show ?case
  proof (cases "expect TRBracket r0")
    case (Some r')
    with "4.prems" pv lt have "r = r'" by (simp del: parse_value.simps)
    with expect_shorter [OF Some] lt show ?thesis by simp
  next
    case None
    with "4.prems" pv lt obtain r' vs' where
      c: "expect TComma r0 = Some r'" and pe: "parse_elements r' = Some (vs', r)"
      by (auto split: option.splits simp del: parse_value.simps)
    from "4.IH"(2) [OF pv refl lt None c pe] expect_shorter [OF c] lt
    show ?thesis by simp
  qed
next
  case 5
  then show ?case by simp
next
  case (6 t ts)
  from "6.prems" obtain k ts' v r0 where
    t: "t = TString k" and ex: "expect TColon ts = Some ts'"
    and pv: "parse_value ts' = Some (v, r0)" and lt: "length r0 < length ts'"
    by (cases t) (auto split: option.splits if_splits)
  show ?case
  proof (cases "expect TRBrace r0")
    case (Some r')
    with "6.prems" t ex pv lt have "r = r'" by simp
    with expect_shorter [OF Some] expect_shorter [OF ex] lt show ?thesis by simp
  next
    case None
    with "6.prems" t ex pv lt obtain r' ms' where
      c: "expect TComma r0 = Some r'" and pm: "parse_members r' = Some (ms', r)"
      by (auto split: option.splits)
    from "6.IH"(2) [OF t ex pv refl lt None c pm] expect_shorter [OF c]
      expect_shorter [OF ex] lt
    show ?thesis by simp
  qed
qed

text \<open>The parser on some texts: what it accepts, and what it refuses.\<close>

lemma JSON_parse_accepts:
  "JSON_parse (js '' [1, 2.50e-3, -0, true, false, null] '') =
     Some (JArray [JNumber False 1 0, JNumber False 250 (- 5), JNumber True 0 0,
                   JBoolean True, JBoolean False, JNull])"
  "JSON_parse (js ''{\"a\":1,\"a\":{\"b\":[]}}'') =
     Some (JObject [(js ''a'', JNumber False 1 0), (js ''a'', JObject [(js ''b'', JArray [])])])"
  "JSON_parse [0x22, 0x5C, 0x6E, 0x5C, 0x75, 0x34, 0x65, 0x32, 0x64, 0x22] =
     Some (JString [0x0A, 0x4E2D])"
  by code_simp+

lemma JSON_parse_refuses:
  "JSON_parse (js ''[1,]'') = None"
  "JSON_parse (js ''{\"a\":1,}'') = None"
  "JSON_parse (js ''01'') = None"
  "JSON_parse (js ''1.'') = None"
  "JSON_parse (js ''{a:1}'') = None"
  "JSON_parse (js ''\"abc'') = None"
  "JSON_parse (js ''nul'') = None"
  "JSON_parse (js ''{} {}'') = None"
  "JSON_parse [0x22, 0x0A, 0x22] = None"
  "JSON_parse [0x22, 0x5C, 0x75, 0x34, 0x65, 0x2D, 0x22] = None"
  "JSON_parse [0xFEFF, 0x7B, 0x7D] = None"
  by code_simp+

text \<open>The equations of the parser without the test.\<close>

lemma parse_elements_unguarded:
  "parse_elements (t # ts) =
     (case parse_value (t # ts) of
        None \<Rightarrow> None
      | Some (v, r) \<Rightarrow>
          (case expect TRBracket r of
             Some r' \<Rightarrow> Some ([v], r')
           | None \<Rightarrow>
               (case expect TComma r of
                  Some r' \<Rightarrow> map_option (\<lambda>(vs, r''). (v # vs, r'')) (parse_elements r')
                | None \<Rightarrow> None)))"
proof (cases "parse_value (t # ts)")
  case None
  then show ?thesis by (simp del: parse_value.simps)
next
  case (Some p)
  obtain v r where p: "p = (v, r)" by (cases p)
  from Some p parse_shorter(1) [of "t # ts" v r] have "length r < length (t # ts)" by simp
  with Some p show ?thesis by (simp del: parse_value.simps)
qed

lemma parse_members_unguarded:
  "parse_members (TString k # ts) =
     (case expect TColon ts of
        None \<Rightarrow> None
      | Some ts' \<Rightarrow>
          (case parse_value ts' of
             None \<Rightarrow> None
           | Some (v, r) \<Rightarrow>
               (case expect TRBrace r of
                  Some r' \<Rightarrow> Some ([(k, v)], r')
                | None \<Rightarrow>
                    (case expect TComma r of
                       Some r' \<Rightarrow>
                         map_option (\<lambda>(ms, r''). ((k, v) # ms, r'')) (parse_members r')
                     | None \<Rightarrow> None))))"
proof (cases "expect TColon ts")
  case None
  then show ?thesis by simp
next
  case (Some ts')
  show ?thesis
  proof (cases "parse_value ts'")
    case None
    with Some show ?thesis by simp
  next
    case inner: (Some p)
    obtain v r where p: "p = (v, r)" by (cases p)
    from inner p parse_shorter(1) [of ts' v r] have "length r < length ts'" by simp
    with Some inner p show ?thesis by simp
  qed
qed

section \<open>The grammar of JSON texts\<close>

text \<open>
  Not code of the repository, and written without the parser: the grammar of JSON
  (ECMA-404) as syntax trees that record every choice the writer of a text has. White
  space is a list of the four white-space characters; a character of a string is
  written raw, by a two-character escape, or by \<open>\u\<close> and four hexadecimal digits of
  either case; a number has its sign, the digits of its integer part and fraction,
  and its exponent; \<open>Pad\<close> puts white space around a value. \<open>render\<close> is the text of a
  tree, \<open>denotes\<close> the value it stands for, \<open>well_formed\<close> what the grammar demands
  of it, and \<open>toks\<close> its tokens.
\<close>

datatype wsc = SP | HT | LF | CR

fun ws_unit :: "wsc \<Rightarrow> code_unit" where
  "ws_unit SP = 0x20"
| "ws_unit HT = 0x09"
| "ws_unit LF = 0x0A"
| "ws_unit CR = 0x0D"

definition spaces :: "wsc list \<Rightarrow> jsstring" where
  "spaces w = map ws_unit w"

datatype schar =
    Raw code_unit
  | Short code_unit
  | Uni "bool \<times> nat" "bool \<times> nat" "bool \<times> nat" "bool \<times> nat"

definition hexChar :: "bool \<times> nat \<Rightarrow> code_unit" where
  "hexChar h = (case h of (upper, n) \<Rightarrow>
     if n < 10 then 0x30 + of_nat n else if upper then 0x37 + of_nat n else 0x57 + of_nat n)"

definition shortLetter :: "code_unit \<Rightarrow> code_unit" where
  "shortLetter c =
     (if c = 0x08 then 0x62 else if c = 0x0C then 0x66 else if c = 0x0A then 0x6E
      else if c = 0x0D then 0x72 else if c = 0x09 then 0x74 else c)"

fun schar_text :: "schar \<Rightarrow> jsstring" where
  "schar_text (Raw c) = [c]"
| "schar_text (Short c) = [0x5C, shortLetter c]"
| "schar_text (Uni a b c d) = [0x5C, 0x75, hexChar a, hexChar b, hexChar c, hexChar d]"

fun schar_unit :: "schar \<Rightarrow> code_unit" where
  "schar_unit (Raw c) = c"
| "schar_unit (Short c) = c"
| "schar_unit (Uni a b c d) =
     of_nat (((snd a * 16 + snd b) * 16 + snd c) * 16 + snd d)"

fun schar_ok :: "schar \<Rightarrow> bool" where
  "schar_ok (Raw c) = (0x20 \<le> c \<and> c \<noteq> 0x22 \<and> c \<noteq> 0x5C)"
| "schar_ok (Short c) =
     (c = 0x22 \<or> c = 0x5C \<or> c = 0x2F \<or> c = 0x08 \<or> c = 0x0C \<or> c = 0x0A \<or> c = 0x0D \<or> c = 0x09)"
| "schar_ok (Uni a b c d) = (snd a < 16 \<and> snd b < 16 \<and> snd c < 16 \<and> snd d < 16)"

definition string_text :: "schar list \<Rightarrow> jsstring" where
  "string_text s = 0x22 # concat (map schar_text s) @ [0x22]"

datatype esign = NoSign | Plus | Minus

definition digit :: "nat \<Rightarrow> code_unit" where
  "digit d = 0x30 + of_nat d"

definition digits_ok :: "nat list \<Rightarrow> bool" where
  "digits_ok ds = list_all (\<lambda>d. d < 10) ds"

definition digits_value :: "nat list \<Rightarrow> nat" where
  "digits_value ds = foldl (\<lambda>n d. 10 * n + d) 0 ds"

definition exponent_text :: "(bool \<times> esign \<times> nat list) option \<Rightarrow> jsstring" where
  "exponent_text ex =
     (case ex of
        None \<Rightarrow> []
      | Some (upper, s, ds) \<Rightarrow>
          (if upper then 0x45 else 0x65)
          # (case s of NoSign \<Rightarrow> [] | Plus \<Rightarrow> [0x2B] | Minus \<Rightarrow> [0x2D]) @ map digit ds)"

definition exponent_value :: "(bool \<times> esign \<times> nat list) option \<Rightarrow> int" where
  "exponent_value ex =
     (case ex of
        None \<Rightarrow> 0
      | Some (upper, s, ds) \<Rightarrow>
          (if s = Minus then - int (digits_value ds) else int (digits_value ds)))"

definition number_text ::
  "bool \<Rightarrow> nat list \<Rightarrow> nat list \<Rightarrow> (bool \<times> esign \<times> nat list) option \<Rightarrow> jsstring" where
  "number_text neg ip fp ex =
     (if neg then [0x2D] else []) @ map digit ip
     @ (if fp = [] then [] else 0x2E # map digit fp) @ exponent_text ex"

definition number_ok ::
  "nat list \<Rightarrow> nat list \<Rightarrow> (bool \<times> esign \<times> nat list) option \<Rightarrow> bool" where
  "number_ok ip fp ex =
     (ip \<noteq> [] \<and> digits_ok ip \<and> (ip = [0] \<or> hd ip \<noteq> 0) \<and> digits_ok fp \<and>
      (case ex of None \<Rightarrow> True | Some (upper, s, ds) \<Rightarrow> ds \<noteq> [] \<and> digits_ok ds))"

datatype cst =
    CNull | CTrue | CFalse
  | CNumber bool "nat list" "nat list" "(bool \<times> esign \<times> nat list) option"
  | CString "schar list"
  | CEmptyArray "wsc list"
  | CArray "cst list"
  | CEmptyObject "wsc list"
  | CObject "cmember list"
  | Pad "wsc list" cst "wsc list"
and cmember = CMember "wsc list" "schar list" "wsc list" cst

fun join :: "'a list \<Rightarrow> 'a list list \<Rightarrow> 'a list" where
  "join sep [] = []"
| "join sep [x] = x"
| "join sep (x # xs) = x @ sep @ join sep xs"

fun render :: "cst \<Rightarrow> jsstring" and render_member :: "cmember \<Rightarrow> jsstring" where
  "render CNull = js ''null''"
| "render CTrue = js ''true''"
| "render CFalse = js ''false''"
| "render (CNumber neg ip fp ex) = number_text neg ip fp ex"
| "render (CString s) = string_text s"
| "render (CEmptyArray w) = 0x5B # spaces w @ [0x5D]"
| "render (CArray cs) = 0x5B # join [0x2C] (map render cs) @ [0x5D]"
| "render (CEmptyObject w) = 0x7B # spaces w @ [0x7D]"
| "render (CObject ms) = 0x7B # join [0x2C] (map render_member ms) @ [0x7D]"
| "render (Pad w c w') = spaces w @ render c @ spaces w'"
| "render_member (CMember w k w' c) = spaces w @ string_text k @ spaces w' @ 0x3A # render c"

fun denotes :: "cst \<Rightarrow> json" and denotes_member :: "cmember \<Rightarrow> jsstring \<times> json" where
  "denotes CNull = JNull"
| "denotes CTrue = JBoolean True"
| "denotes CFalse = JBoolean False"
| "denotes (CNumber neg ip fp ex) =
     JNumber neg (digits_value (ip @ fp)) (exponent_value ex - int (length fp))"
| "denotes (CString s) = JString (map schar_unit s)"
| "denotes (CEmptyArray w) = JArray []"
| "denotes (CArray cs) = JArray (map denotes cs)"
| "denotes (CEmptyObject w) = JObject []"
| "denotes (CObject ms) = JObject (map denotes_member ms)"
| "denotes (Pad w c w') = denotes c"
| "denotes_member (CMember w k w' c) = (map schar_unit k, denotes c)"

fun well_formed :: "cst \<Rightarrow> bool" and well_formed_member :: "cmember \<Rightarrow> bool" where
  "well_formed CNull = True"
| "well_formed CTrue = True"
| "well_formed CFalse = True"
| "well_formed (CNumber neg ip fp ex) = number_ok ip fp ex"
| "well_formed (CString s) = list_all schar_ok s"
| "well_formed (CEmptyArray w) = True"
| "well_formed (CArray cs) = (cs \<noteq> [] \<and> list_all well_formed cs)"
| "well_formed (CEmptyObject w) = True"
| "well_formed (CObject ms) = (ms \<noteq> [] \<and> list_all well_formed_member ms)"
| "well_formed (Pad w c w') = well_formed c"
| "well_formed_member (CMember w k w' c) = (list_all schar_ok k \<and> well_formed c)"

fun toks :: "cst \<Rightarrow> token list" and toks_member :: "cmember \<Rightarrow> token list" where
  "toks CNull = [TNull]"
| "toks CTrue = [TTrue]"
| "toks CFalse = [TFalse]"
| "toks (CNumber neg ip fp ex) =
     [TNumber neg (digits_value (ip @ fp)) (exponent_value ex - int (length fp))]"
| "toks (CString s) = [TString (map schar_unit s)]"
| "toks (CEmptyArray w) = [TLBracket, TRBracket]"
| "toks (CArray cs) = TLBracket # join [TComma] (map toks cs) @ [TRBracket]"
| "toks (CEmptyObject w) = [TLBrace, TRBrace]"
| "toks (CObject ms) = TLBrace # join [TComma] (map toks_member ms) @ [TRBrace]"
| "toks (Pad w c w') = toks c"
| "toks_member (CMember w k w' c) = TString (map schar_unit k) # TColon # toks c"

text \<open>
  What can follow a value in a text: nothing, white space, a comma, or a closing
  bracket or brace.
\<close>

definition ends_token :: "jsstring \<Rightarrow> bool" where
  "ends_token r =
     (case r of
        [] \<Rightarrow> True
      | c # cs \<Rightarrow> c = 0x20 \<or> c = 0x09 \<or> c = 0x0A \<or> c = 0x0D \<or> c = 0x2C \<or> c = 0x5D \<or> c = 0x7D)"

section \<open>JSON.parse accepts every JSON text\<close>

text \<open>
  The lexer reads the text of a well-formed tree into its tokens, whatever follows
  that can follow a value; the parser reads the tokens into the value the tree
  denotes.
\<close>

lemma lex_spaces: "lex (spaces w @ cs) = lex cs"
proof (induction w)
  case Nil
  show ?case by (simp add: spaces_def)
next
  case (Cons a w)
  then show ?case by (cases a) (simp_all add: spaces_def isJSONWhitespace_def)
qed

lemma hexVal_hexChar_all:
  "list_all (\<lambda>n. hexVal (hexChar (True, n)) = Some (of_nat n) \<and>
                  hexVal (hexChar (False, n)) = Some (of_nat n)) [0..<16]"
  by code_simp

lemma hexVal_hexChar: "snd h < 16 \<Longrightarrow> hexVal (hexChar h) = Some (of_nat (snd h))"
proof -
  assume a: "snd h < 16"
  obtain u n where h: "h = (u, n)" by (cases h)
  with a have "n \<in> set [0..<16]" by simp
  with hexVal_hexChar_all have
    "hexVal (hexChar (True, n)) = Some (of_nat n) \<and> hexVal (hexChar (False, n)) = Some (of_nat n)"
    unfolding list_all_iff by blast
  with h show ?thesis by (cases u) simp_all
qed

lemma unescape_shortLetter:
  "schar_ok (Short c) \<Longrightarrow> shortLetter c \<noteq> 0x75 \<and> unescape (shortLetter c) = Some c"
  by (auto simp: shortLetter_def unescape_def)

lemma lex_string_schar:
  assumes "schar_ok x" and "lex_string cs = Some (s, r)"
  shows "lex_string (schar_text x @ cs) = Some (schar_unit x # s, r)"
proof (cases x)
  case (Raw c)
  with assms show ?thesis by (simp add: not_less [symmetric])
next
  case (Short c)
  with assms unescape_shortLetter [of c] show ?thesis by simp
next
  case (Uni a b c d)
  with assms have "hex4 [hexChar a, hexChar b, hexChar c, hexChar d] = Some (schar_unit x)"
    by (simp add: hex4_def hexVal_hexChar Uni)
  with assms Uni show ?thesis by simp
qed

lemma lex_string_schars:
  "list_all schar_ok s \<Longrightarrow>
   lex_string (concat (map schar_text s) @ 0x22 # rest) = Some (map schar_unit s, rest)"
proof (induction s)
  case Nil
  show ?case by simp
next
  case (Cons x s)
  then have "schar_ok x" and "lex_string (concat (map schar_text s) @ 0x22 # rest) = Some (map schar_unit s, rest)"
    by simp_all
  from lex_string_schar [OF this] show ?case by simp
qed

lemma lex_string_text:
  "list_all schar_ok s \<Longrightarrow>
   lex (string_text s @ rest) = map_option ((#) (TString (map schar_unit s))) (lex rest)"
  using lex_string_schars [of s rest]
  by (simp add: string_text_def isJSONWhitespace_def)

lemma lex_literals:
  "lex (js ''null'' @ rest) = map_option ((#) TNull) (lex rest)"
  "lex (js ''true'' @ rest) = map_option ((#) TTrue) (lex rest)"
  "lex (js ''false'' @ rest) = map_option ((#) TFalse) (lex rest)"
  by (simp_all add: js_def isJSONWhitespace_def isDigit_def)

lemma digit_all:
  "list_all (\<lambda>d. isDigit (digit d) \<and> unat (digit d) - 48 = d \<and> (digit d = 0x30) = (d = 0) \<and>
                  digit d \<noteq> 0x2B \<and> digit d \<noteq> 0x2D \<and> digit d \<noteq> 0x20 \<and> digit d \<noteq> 0x09 \<and>
                  digit d \<noteq> 0x0A \<and> digit d \<noteq> 0x0D \<and> digit d \<noteq> 0x7B \<and> digit d \<noteq> 0x7D \<and>
                  digit d \<noteq> 0x5B \<and> digit d \<noteq> 0x5D \<and> digit d \<noteq> 0x3A \<and> digit d \<noteq> 0x2C \<and>
                  digit d \<noteq> 0x22)
     [0..<10]"
  by code_simp

lemma digit_facts:
  assumes "d < 10"
  shows "isDigit (digit d)" and "unat (digit d) - 48 = d" and "(digit d = 0x30) = (d = 0)"
    and "digit d \<noteq> 0x2B" and "digit d \<noteq> 0x2D" and "digit d \<noteq> 0x20" and "digit d \<noteq> 0x09"
    and "digit d \<noteq> 0x0A" and "digit d \<noteq> 0x0D" and "digit d \<noteq> 0x7B" and "digit d \<noteq> 0x7D"
    and "digit d \<noteq> 0x5B" and "digit d \<noteq> 0x5D" and "digit d \<noteq> 0x3A" and "digit d \<noteq> 0x2C"
    and "digit d \<noteq> 0x22"
proof -
  from assms have "d \<in> set [0..<10]" by simp
  with digit_all have
    "isDigit (digit d) \<and> unat (digit d) - 48 = d \<and> (digit d = 0x30) = (d = 0) \<and>
     digit d \<noteq> 0x2B \<and> digit d \<noteq> 0x2D \<and> digit d \<noteq> 0x20 \<and> digit d \<noteq> 0x09 \<and>
     digit d \<noteq> 0x0A \<and> digit d \<noteq> 0x0D \<and> digit d \<noteq> 0x7B \<and> digit d \<noteq> 0x7D \<and>
     digit d \<noteq> 0x5B \<and> digit d \<noteq> 0x5D \<and> digit d \<noteq> 0x3A \<and> digit d \<noteq> 0x2C \<and>
     digit d \<noteq> 0x22"
    unfolding list_all_iff by blast
  then show "isDigit (digit d)" and "unat (digit d) - 48 = d" and "(digit d = 0x30) = (d = 0)"
    and "digit d \<noteq> 0x2B" and "digit d \<noteq> 0x2D" and "digit d \<noteq> 0x20" and "digit d \<noteq> 0x09"
    and "digit d \<noteq> 0x0A" and "digit d \<noteq> 0x0D" and "digit d \<noteq> 0x7B" and "digit d \<noteq> 0x7D"
    and "digit d \<noteq> 0x5B" and "digit d \<noteq> 0x5D" and "digit d \<noteq> 0x3A" and "digit d \<noteq> 0x2C"
    and "digit d \<noteq> 0x22"
    by simp_all
qed

lemma decimal_digits_acc:
  "digits_ok ds \<Longrightarrow>
   foldl (\<lambda>n d. 10 * n + (unat d - 48)) a (map digit ds) = foldl (\<lambda>n d. 10 * n + d) a ds"
  by (induction ds arbitrary: a) (simp_all add: digits_ok_def digit_facts(2))

lemma decimal_digits: "digits_ok ds \<Longrightarrow> decimal (map digit ds) = digits_value ds"
  by (simp add: decimal_def digits_value_def decimal_digits_acc)

text \<open>What may follow a run of digits: nothing, or a character that is no digit.\<close>

definition no_digit_next :: "jsstring \<Rightarrow> bool" where
  "no_digit_next r = (case r of [] \<Rightarrow> True | c # cs \<Rightarrow> \<not> isDigit c)"

lemma span_digits:
  "digits_ok ds \<Longrightarrow> no_digit_next r \<Longrightarrow>
   takeWhile isDigit (map digit ds @ r) = map digit ds \<and>
   dropWhile isDigit (map digit ds @ r) = r"
proof (induction ds)
  case Nil
  then show ?case by (cases r) (simp_all add: no_digit_next_def)
next
  case (Cons d ds)
  then show ?case by (simp add: digits_ok_def digit_facts(1))
qed

lemma lex_int_digits:
  assumes "ip \<noteq> []" "digits_ok ip" "ip = [0] \<or> hd ip \<noteq> 0" "no_digit_next r"
  shows "lex_int (map digit ip @ r) = Some (map digit ip, r)"
proof (cases ip)
  case Nil
  with assms show ?thesis by simp
next
  case (Cons d ds)
  with assms(2) have d: "d < 10" by (simp add: digits_ok_def)
  show ?thesis
  proof (cases "d = 0")
    case True
    with assms(3) Cons have "ip = [0]" by simp
    then show ?thesis by (simp add: lex_int_def digit_def)
  next
    case False
    with d have "digit d \<noteq> 0x30" by (simp add: digit_facts(3))
    moreover from d have "isDigit (digit d)" by (rule digit_facts(1))
    ultimately have "lex_int (map digit ip @ r) =
        Some (takeWhile isDigit (map digit ip @ r), dropWhile isDigit (map digit ip @ r))"
      by (simp add: lex_int_def Cons)
    with span_digits [OF assms(2,4)] show ?thesis by simp
  qed
qed

lemma lex_frac_digits:
  assumes "digits_ok fp" "no_digit_next r" "fp = [] \<longrightarrow> (case r of [] \<Rightarrow> True | c # cs \<Rightarrow> c \<noteq> 0x2E)"
  shows "lex_frac ((if fp = [] then [] else 0x2E # map digit fp) @ r) = Some (map digit fp, r)"
proof (cases "fp = []")
  case True
  with assms(3) show ?thesis by (cases r) (simp_all add: lex_frac_def)
next
  case False
  with span_digits [OF assms(1,2)] show ?thesis by (simp add: lex_frac_def)
qed

lemma lex_digits1_digits:
  assumes "ds \<noteq> []" "digits_ok ds" "no_digit_next r"
  shows "lex_digits1 neg (map digit ds @ r) =
           Some ((if neg then - int (digits_value ds) else int (digits_value ds)), r)"
  using span_digits [OF assms(2,3)] assms(1)
  by (simp add: lex_digits1_def decimal_digits [OF assms(2)])

lemma lex_exp_digits:
  assumes "case ex of None \<Rightarrow> True | Some (upper, s, ds) \<Rightarrow> ds \<noteq> [] \<and> digits_ok ds"
    and "no_digit_next r"
    and "case r of [] \<Rightarrow> True | c # cs \<Rightarrow> c \<noteq> 0x65 \<and> c \<noteq> 0x45"
  shows "lex_exp (exponent_text ex @ r) = Some (exponent_value ex, r)"
proof (cases ex)
  case None
  with assms(3) show ?thesis
    by (cases r) (simp_all add: lex_exp_def exponent_text_def exponent_value_def)
next
  case (Some e)
  obtain upper s ds where e: "e = (upper, s, ds)" by (cases e)
  with Some assms(1) have ne: "ds \<noteq> []" and ok: "digits_ok ds" by simp_all
  then obtain d ds' where ds: "ds = d # ds'" and d: "d < 10"
    by (cases ds) (auto simp: digits_ok_def)
  note l = lex_digits1_digits [OF ne ok assms(2)]
  show ?thesis
  proof (cases s)
    case NoSign
    have "lex_exp (exponent_text ex @ r) = lex_digits1 False (map digit ds @ r)"
      using d by (simp add: lex_exp_def exponent_text_def Some e NoSign ds digit_facts(4,5))
    with l [of False] show ?thesis by (simp add: exponent_value_def Some e NoSign)
  next
    case Plus
    have "lex_exp (exponent_text ex @ r) = lex_digits1 False (map digit ds @ r)"
      by (simp add: lex_exp_def exponent_text_def Some e Plus)
    with l [of False] show ?thesis by (simp add: exponent_value_def Some e Plus)
  next
    case Minus
    have "lex_exp (exponent_text ex @ r) = lex_digits1 True (map digit ds @ r)"
      by (simp add: lex_exp_def exponent_text_def Some e Minus)
    with l [of True] show ?thesis by (simp add: exponent_value_def Some e Minus)
  qed
qed

lemma ends_token_follow:
  assumes "ends_token r"
  shows "no_digit_next r"
    and "case r of [] \<Rightarrow> True | c # cs \<Rightarrow> c \<noteq> 0x2E"
    and "case r of [] \<Rightarrow> True | c # cs \<Rightarrow> c \<noteq> 0x65 \<and> c \<noteq> 0x45"
  using assms by (cases r; auto simp: ends_token_def no_digit_next_def isDigit_def)+

lemma no_digit_next_exponent:
  "no_digit_next r \<Longrightarrow> no_digit_next (exponent_text ex @ r)"
  by (cases ex) (auto simp: exponent_text_def no_digit_next_def isDigit_def)

lemma no_digit_next_frac:
  "no_digit_next r \<Longrightarrow> no_digit_next ((if fp = [] then [] else 0x2E # map digit fp) @ r)"
  by (simp add: no_digit_next_def isDigit_def)

lemma lex_number_text:
  assumes "number_ok ip fp ex" and "ends_token r"
  shows "lex_number (number_text neg ip fp ex @ r) =
           Some (TNumber neg (digits_value (ip @ fp)) (exponent_value ex - int (length fp)), r)"
proof -
  from assms(1) have ip: "ip \<noteq> []" "digits_ok ip" "ip = [0] \<or> hd ip \<noteq> 0"
    and fp: "digits_ok fp"
    and ex: "case ex of None \<Rightarrow> True | Some (upper, s, ds) \<Rightarrow> ds \<noteq> [] \<and> digits_ok ds"
    by (simp_all add: number_ok_def)
  let ?F = "(if fp = [] then [] else 0x2E # map digit fp)"
  let ?E = "exponent_text ex"
  note f = ends_token_follow [OF assms(2)]
  have n1: "no_digit_next (?E @ r)" by (rule no_digit_next_exponent [OF f(1)])
  have n2: "no_digit_next (?F @ ?E @ r)" by (rule no_digit_next_frac [OF n1])
  have i: "lex_int (map digit ip @ ?F @ ?E @ r) = Some (map digit ip, ?F @ ?E @ r)"
    by (rule lex_int_digits [OF ip n2])
  have dot: "fp = [] \<longrightarrow> (case ?E @ r of [] \<Rightarrow> True | c # cs \<Rightarrow> c \<noteq> 0x2E)"
    using f(2) by (cases ex; cases r) (auto simp: exponent_text_def)
  have fr: "lex_frac (?F @ ?E @ r) = Some (map digit fp, ?E @ r)"
    by (rule lex_frac_digits [OF fp n1 dot])
  have e: "lex_exp (?E @ r) = Some (exponent_value ex, r)"
    by (rule lex_exp_digits [OF ex f(1) f(3)])
  obtain d ds where ipc: "ip = d # ds" and d: "d < 10"
    using ip by (cases ip) (auto simp: digits_ok_def)
  have dec: "decimal (map digit ip @ map digit fp) = digits_value (ip @ fp)"
    using decimal_digits [of "ip @ fp"] ip(2) fp by (simp add: digits_ok_def)
  show ?thesis
  proof (cases neg)
    case True
    then have "lex_number (number_text neg ip fp ex @ r) =
        (case lex_int (map digit ip @ ?F @ ?E @ r) of
           None \<Rightarrow> None
         | Some (ip', cs2) \<Rightarrow>
             (case lex_frac cs2 of
                None \<Rightarrow> None
              | Some (fp', cs3) \<Rightarrow>
                  (case lex_exp cs3 of
                     None \<Rightarrow> None
                   | Some (ex', cs4) \<Rightarrow>
                       Some (TNumber True (decimal (ip' @ fp')) (ex' - int (length fp')), cs4))))"
      by (simp add: lex_number_def number_text_def)
    with i fr e dec True show ?thesis by simp
  next
    case False
    then have "lex_number (number_text neg ip fp ex @ r) =
        (case lex_int (map digit ip @ ?F @ ?E @ r) of
           None \<Rightarrow> None
         | Some (ip', cs2) \<Rightarrow>
             (case lex_frac cs2 of
                None \<Rightarrow> None
              | Some (fp', cs3) \<Rightarrow>
                  (case lex_exp cs3 of
                     None \<Rightarrow> None
                   | Some (ex', cs4) \<Rightarrow>
                       Some (TNumber False (decimal (ip' @ fp')) (ex' - int (length fp')), cs4))))"
      using d by (simp add: lex_number_def number_text_def ipc digit_facts(5))
    with i fr e dec False show ?thesis by simp
  qed
qed

lemma lex_number_token:
  assumes "number_ok ip fp ex" and "ends_token r"
  shows "lex (number_text neg ip fp ex @ r) =
           map_option ((#) (TNumber neg (digits_value (ip @ fp)) (exponent_value ex - int (length fp))))
             (lex r)"
proof -
  obtain d ds where ipc: "ip = d # ds" and d: "d < 10"
    using assms(1) by (cases ip) (auto simp: number_ok_def digits_ok_def)
  obtain c cs where t: "number_text neg ip fp ex @ r = c # cs"
    and c: "c = 0x2D \<or> c = digit d"
    by (cases neg) (simp_all add: number_text_def ipc)
  from c d have "c = 0x2D \<or> isDigit c" by (auto simp: digit_facts(1))
  moreover from c d have "\<not> isJSONWhitespace c" "c \<noteq> 0x7B" "c \<noteq> 0x7D" "c \<noteq> 0x5B" "c \<noteq> 0x5D"
    "c \<noteq> 0x3A" "c \<noteq> 0x2C" "c \<noteq> 0x22"
    by (auto simp: isJSONWhitespace_def digit_facts)
  ultimately have "lex (c # cs) =
      (case lex_number (c # cs) of None \<Rightarrow> None | Some (n, r') \<Rightarrow> map_option ((#) n) (lex r'))"
    by simp
  with lex_number_text [OF assms, of neg] t show ?thesis by simp
qed

lemma ends_token_cases:
  "ends_token (0x2C # r)" "ends_token (0x5D # r)" "ends_token (0x7D # r)" "ends_token []"
  by (simp_all add: ends_token_def)

lemma ends_token_spaces: "ends_token r \<Longrightarrow> ends_token (spaces w @ r)"
proof (cases w)
  case Nil
  assume "ends_token r"
  with Nil show ?thesis by (simp add: spaces_def)
next
  case (Cons a w')
  then show ?thesis by (cases a) (simp_all add: spaces_def ends_token_def)
qed

lemma lex_punct:
  "lex (0x7B # cs) = map_option ((#) TLBrace) (lex cs)"
  "lex (0x7D # cs) = map_option ((#) TRBrace) (lex cs)"
  "lex (0x5B # cs) = map_option ((#) TLBracket) (lex cs)"
  "lex (0x5D # cs) = map_option ((#) TRBracket) (lex cs)"
  "lex (0x3A # cs) = map_option ((#) TColon) (lex cs)"
  "lex (0x2C # cs) = map_option ((#) TComma) (lex cs)"
  by (simp_all add: isJSONWhitespace_def)

lemma lex_join:
  assumes "\<And>x r. x \<in> set xs \<Longrightarrow> ends_token r \<Longrightarrow>
             lex (f x @ r) = map_option (\<lambda>ts. g x @ ts) (lex r)"
    and "ends_token r"
  shows "lex (join [0x2C] (map f xs) @ r) =
           map_option (\<lambda>ts. join [TComma] (map g xs) @ ts) (lex r)"
  using assms
proof (induction xs rule: induct_list012)
  case 1
  show ?case by (simp add: option.map_ident)
next
  case (2 x)
  then show ?case by simp
next
  case more: (3 x y ys)
  have "lex (f x @ 0x2C # join [0x2C] (map f (y # ys)) @ r) =
      map_option (\<lambda>ts. g x @ ts) (lex (0x2C # join [0x2C] (map f (y # ys)) @ r))"
    by (rule more.prems(1)) (simp_all add: ends_token_cases)
  moreover have "lex (join [0x2C] (map f (y # ys)) @ r) =
      map_option (\<lambda>ts. join [TComma] (map g (y # ys)) @ ts) (lex r)"
    by (rule more.IH(2)) (use more.prems in auto)
  ultimately show ?case
    by (simp add: lex_punct option.map_comp comp_def del: lex.simps)
qed

lemma lex_render:
  "well_formed c \<Longrightarrow> ends_token r \<Longrightarrow>
   lex (render c @ r) = map_option (\<lambda>ts. toks c @ ts) (lex r)"
  "well_formed_member m \<Longrightarrow> ends_token r \<Longrightarrow>
   lex (render_member m @ r) = map_option (\<lambda>ts. toks_member m @ ts) (lex r)"
proof (induction c and m arbitrary: r and r)
  case CNull
  show ?case by (simp add: lex_literals del: lex.simps)
next
  case CTrue
  show ?case by (simp add: lex_literals del: lex.simps)
next
  case CFalse
  show ?case by (simp add: lex_literals del: lex.simps)
next
  case (CNumber neg ip fp ex)
  then show ?case by (simp add: lex_number_token del: lex.simps)
next
  case (CString s)
  then show ?case by (simp add: lex_string_text del: lex.simps)
next
  case (CEmptyArray w)
  show ?case by (simp add: lex_punct lex_spaces option.map_comp comp_def del: lex.simps)
next
  case (CArray cs)
  have "lex (join [0x2C] (map render cs) @ 0x5D # r) =
      map_option (\<lambda>ts. join [TComma] (map toks cs) @ ts) (lex (0x5D # r))"
  proof (rule lex_join)
    fix x r' assume "x \<in> set cs" "ends_token r'"
    with CArray.IH [of x r'] CArray.prems(1)
    show "lex (render x @ r') = map_option (\<lambda>ts. toks x @ ts) (lex r')"
      by (simp add: list_all_iff)
  qed (simp add: ends_token_cases)
  then show ?case
    by (simp add: lex_punct option.map_comp comp_def del: lex.simps)
next
  case (CEmptyObject w)
  show ?case by (simp add: lex_punct lex_spaces option.map_comp comp_def del: lex.simps)
next
  case (CObject ms)
  have "lex (join [0x2C] (map render_member ms) @ 0x7D # r) =
      map_option (\<lambda>ts. join [TComma] (map toks_member ms) @ ts) (lex (0x7D # r))"
  proof (rule lex_join)
    fix x r' assume "x \<in> set ms" "ends_token r'"
    with CObject.IH [of x r'] CObject.prems(1)
    show "lex (render_member x @ r') = map_option (\<lambda>ts. toks_member x @ ts) (lex r')"
      by (simp add: list_all_iff)
  qed (simp add: ends_token_cases)
  then show ?case
    by (simp add: lex_punct option.map_comp comp_def del: lex.simps)
next
  case (Pad w c w')
  from Pad.prems have wf: "well_formed c" by simp
  have "lex (render c @ spaces w' @ r) = map_option (\<lambda>ts. toks c @ ts) (lex (spaces w' @ r))"
    by (rule Pad.IH [OF wf ends_token_spaces [OF Pad.prems(2)]])
  then show ?case by (simp add: lex_spaces del: lex.simps)
next
  case (CMember w k w' c)
  from CMember.prems have k: "list_all schar_ok k" and wf: "well_formed c" by simp_all
  have "lex (render c @ r) = map_option (\<lambda>ts. toks c @ ts) (lex r)"
    by (rule CMember.IH [OF wf CMember.prems(2)])
  then show ?case
    by (simp add: lex_spaces lex_string_text [OF k] lex_punct option.map_comp comp_def
             del: lex.simps)
qed

text \<open>The tokens a value can begin with.\<close>

definition value_start :: "token list \<Rightarrow> bool" where
  "value_start ts =
     (case ts of
        [] \<Rightarrow> False
      | t # r \<Rightarrow> t \<noteq> TRBracket \<and> t \<noteq> TRBrace \<and> t \<noteq> TComma \<and> t \<noteq> TColon)"

lemma value_start_append: "value_start ts \<Longrightarrow> value_start (ts @ r)"
  by (cases ts) (simp_all add: value_start_def)

lemma value_start_toks:
  "value_start (toks c)"
  "toks_member m \<noteq> []"
  by (induction c and m) (simp_all add: value_start_def)

lemma expect_value_start:
  "value_start ts \<Longrightarrow> expect TRBracket ts = None \<and> expect TRBrace ts = None"
  by (cases ts) (auto simp: value_start_def)

lemma parse_elements_one:
  assumes "\<And>r. parse_value (ts @ r) = Some (v, r)" and "value_start ts"
  shows "parse_elements (ts @ TRBracket # r) = Some ([v], r)"
proof -
  from assms(2) obtain t ts' where ts: "ts = t # ts'" by (cases ts) (simp_all add: value_start_def)
  have "parse_elements ((t # ts') @ TRBracket # r) = Some ([v], r)"
    unfolding append_Cons parse_elements_unguarded
    using assms(1) [of "TRBracket # r"] by (simp add: ts del: parse_value.simps)
  then show ?thesis by (simp only: ts)
qed

lemma parse_elements_more:
  assumes "\<And>r. parse_value (ts @ r) = Some (v, r)" and "value_start ts"
  shows "parse_elements (ts @ TComma # r) =
           map_option (\<lambda>(vs, r'). (v # vs, r')) (parse_elements r)"
proof -
  from assms(2) obtain t ts' where ts: "ts = t # ts'" by (cases ts) (simp_all add: value_start_def)
  have "parse_elements ((t # ts') @ TComma # r) =
      map_option (\<lambda>(vs, r'). (v # vs, r')) (parse_elements r)"
    unfolding append_Cons parse_elements_unguarded
    using assms(1) [of "TComma # r"] by (simp add: ts del: parse_value.simps parse_elements.simps)
  then show ?thesis by (simp only: ts)
qed

lemma parse_elements_join:
  assumes "\<And>x r. x \<in> set xs \<Longrightarrow> parse_value (g x @ r) = Some (d x, r)"
    and "\<And>x. x \<in> set xs \<Longrightarrow> value_start (g x)"
    and "xs \<noteq> []"
  shows "parse_elements (join [TComma] (map g xs) @ TRBracket # r) = Some (map d xs, r)"
  using assms
proof (induction xs rule: induct_list012)
  case 1
  then show ?case by simp
next
  case (2 x)
  then show ?case by (simp add: parse_elements_one del: parse_elements.simps)
next
  case more: (3 x y ys)
  have "parse_elements (join [TComma] (map g (y # ys)) @ TRBracket # r) = Some (map d (y # ys), r)"
    by (rule more.IH(2)) (use more.prems in auto)
  moreover have "parse_elements (g x @ TComma # join [TComma] (map g (y # ys)) @ TRBracket # r) =
      map_option (\<lambda>(vs, r'). (d x # vs, r'))
        (parse_elements (join [TComma] (map g (y # ys)) @ TRBracket # r))"
    by (rule parse_elements_more) (use more.prems in auto)
  ultimately show ?case by (simp del: parse_elements.simps)
qed

lemma parse_members_one:
  assumes "\<And>r. parse_value (ts @ r) = Some (v, r)"
  shows "parse_members (TString k # TColon # ts @ TRBrace # r) = Some ([(k, v)], r)"
  unfolding parse_members_unguarded
  using assms [of "TRBrace # r"] by (simp del: parse_value.simps)

lemma parse_members_more:
  assumes "\<And>r. parse_value (ts @ r) = Some (v, r)"
  shows "parse_members (TString k # TColon # ts @ TComma # r) =
           map_option (\<lambda>(ms, r'). ((k, v) # ms, r')) (parse_members r)"
  unfolding parse_members_unguarded
  using assms [of "TComma # r"] by (simp del: parse_value.simps parse_members.simps)

lemma parse_members_join:
  assumes "\<And>x r. x \<in> set xs \<Longrightarrow>
             parse_members (g x @ TRBrace # r) = Some ([d x], r) \<and>
             parse_members (g x @ TComma # r) =
               map_option (\<lambda>(ms, r'). (d x # ms, r')) (parse_members r)"
    and "xs \<noteq> []"
  shows "parse_members (join [TComma] (map g xs) @ TRBrace # r) = Some (map d xs, r)"
  using assms
proof (induction xs rule: induct_list012)
  case 1
  then show ?case by simp
next
  case (2 x)
  then show ?case by (simp del: parse_members.simps)
next
  case more: (3 x y ys)
  have "parse_members (join [TComma] (map g (y # ys)) @ TRBrace # r) = Some (map d (y # ys), r)"
    by (rule more.IH(2)) (use more.prems in auto)
  moreover have "parse_members (g x @ TComma # join [TComma] (map g (y # ys)) @ TRBrace # r) =
      map_option (\<lambda>(ms, r'). (d x # ms, r'))
        (parse_members (join [TComma] (map g (y # ys)) @ TRBrace # r))"
    using more.prems(1) [of x] by simp
  ultimately show ?case by (simp del: parse_members.simps)
qed

lemma join_value_start:
  "xs \<noteq> [] \<Longrightarrow> (\<And>x. x \<in> set xs \<Longrightarrow> value_start (g x)) \<Longrightarrow>
   value_start (join sep (map g xs) @ r)"
  by (induction xs rule: induct_list012) (auto simp: value_start_append)

lemma parse_toks:
  "well_formed c \<Longrightarrow> parse_value (toks c @ r) = Some (denotes c, r)"
  "well_formed_member m \<Longrightarrow>
     parse_members (toks_member m @ TRBrace # r) = Some ([denotes_member m], r) \<and>
     parse_members (toks_member m @ TComma # r) =
       map_option (\<lambda>(ms, r'). (denotes_member m # ms, r')) (parse_members r)"
proof (induction c and m arbitrary: r and r)
  case (CArray cs)
  from CArray.prems have ne: "cs \<noteq> []" and wf: "\<And>x. x \<in> set cs \<Longrightarrow> well_formed x"
    by (simp_all add: list_all_iff)
  have st: "value_start (join [TComma] (map toks cs) @ TRBracket # r)"
    by (rule join_value_start [OF ne]) (rule value_start_toks(1))
  have "parse_elements (join [TComma] (map toks cs) @ TRBracket # r) = Some (map denotes cs, r)"
    by (rule parse_elements_join [OF _ _ ne]) (simp_all add: CArray.IH wf value_start_toks(1))
  with expect_value_start [OF st] show ?case by (simp del: parse_elements.simps)
next
  case (CObject ms)
  from CObject.prems have ne: "ms \<noteq> []" and wf: "\<And>x. x \<in> set ms \<Longrightarrow> well_formed_member x"
    by (simp_all add: list_all_iff)
  obtain m ms' where ms: "ms = m # ms'" using ne by (cases ms) auto
  obtain w k w' c where m: "m = CMember w k w' c" by (cases m)
  have ex: "expect TRBrace (join [TComma] (map toks_member ms) @ TRBrace # r) = None"
    by (cases ms') (simp_all add: ms m)
  have "parse_members (join [TComma] (map toks_member ms) @ TRBrace # r) =
      Some (map denotes_member ms, r)"
    by (rule parse_members_join [OF _ ne]) (rule CObject.IH, assumption, erule wf)
  with ex show ?case by (simp del: parse_members.simps)
next
  case (CMember w k w' c)
  from CMember.prems have wf: "well_formed c" by simp
  from parse_members_one [of "toks c" "denotes c"] parse_members_more [of "toks c" "denotes c"]
    CMember.IH [OF wf]
  show ?case by (simp del: parse_members.simps)
qed simp_all

theorem JSON_parse_render: "well_formed c \<Longrightarrow> JSON_parse (render c) = Some (denotes c)"
proof -
  assume wf: "well_formed c"
  from lex_render(1) [OF wf ends_token_cases(4)] have "lex (render c) = Some (toks c)"
    by simp
  moreover from parse_toks(1) [OF wf, of "[]"] have "parse_value (toks c) = Some (denotes c, [])"
    by simp
  ultimately show ?thesis by (simp add: JSON_parse_def)
qed

section \<open>services/geminiService.ts\<close>

text \<open>The language selector \<open>'en' | 'zh'\<close>.\<close>

datatype lang = En | Zh

text \<open>The members of the SDK's \<open>Type\<close> enumeration that the response schema uses.\<close>

datatype Type = OBJECT | ARRAY | STRING

text \<open>A schema literal; a field the literal leaves out is \<open>None\<close>.\<close>

datatype schema =
  Schema (type: Type)
         (properties: "(jsstring \<times> schema) list option")
         (items: "schema option")
         (required: "jsstring list option")

record generateContentConfig =
  responseMimeType :: jsstring
  responseSchema :: schema

record generateContentParameters =
  model :: jsstring
  contents :: jsstring
  config :: generateContentConfig

text \<open>
  What the awaited \<open>ai.models.generateContent\<close> does: the promise is rejected with a
  reason, or resolved with a response whose \<open>text\<close> is a string or \<open>undefined\<close>.
\<close>

datatype reply = Rejected jsstring | Resolved "jsstring option"

datatype js_error = ServiceError jsstring | SyntaxError

datatype 'a completion = Returns 'a | Throws js_error

datatype log_arg = LogString jsstring | LogError js_error

text \<open>
  The effects of the module: the requests handed to the service, in order, and the
  entries written with \<open>console.error\<close> (each the list of its arguments).
\<close>

record world =
  calls :: "generateContentParameters list"
  console :: "log_arg list list"

text \<open>
  The surroundings of the module: the environment variable read at load time
  (\<open>None\<close> when it is not set) and the remote service, which may answer the
  \<open>n\<close>-th request it receives in any way.
\<close>

record environment =
  API_KEY :: "jsstring option"
  generateContent :: "nat \<Rightarrow> generateContentParameters \<Rightarrow> reply"

text \<open>Line 4: \<open>process.env.API_KEY || ''\<close>.\<close>

definition apiKey :: "environment \<Rightarrow> jsstring" where
  "apiKey env = (case API_KEY env of Some k \<Rightarrow> if k \<noteq> [] then k else [] | None \<Rightarrow> [])"

text \<open>Lines 13 to 15.\<close>

definition langInstruction :: "lang \<Rightarrow> jsstring" where
  "langInstruction lang =
     (if lang = Zh
      then js ''OUTPUT MUST BE IN CHINESE (Simplified). Translate titles, strategies, and risks to Chinese.''
      else js ''Output in English.'')"

text \<open>The template literal of lines 20 to 31, line by line.\<close>

definition prompt :: "jsstring \<Rightarrow> lang \<Rightarrow> jsstring" where
  "prompt taskDescription lang =
     js ''You are an expert Senior Technical Architect and \"Vibe Coding\" specialist. '' @ [0x0A]
     @ js ''      Your goal is to break down a complex coding requirement into a strictly phased execution plan to prevent AI confusion and code rot.'' @ [0x0A]
     @ js ''      '' @ [0x0A]
     @ js ''      User Task: \"'' @ taskDescription @ js ''\"'' @ [0x0A]
     @ js ''      '' @ [0x0A]
     @ js ''      '' @ langInstruction lang @ [0x0A]
     @ [0x0A]
     @ js ''      Provide a JSON response with a list of steps. For each step, include:'' @ [0x0A]
     @ js ''      - title: A short, action-oriented title.'' @ [0x0A]
     @ js ''      - promptStrategy: Specific advice on what to tell the AI coder in this step (e.g., \"Only generate the interface definitions\").'' @ [0x0A]
     @ js ''      - risk: What usually goes wrong here if not careful (e.g., \"AI hallucinates imports\").'' @ [0x0A]
     @ js ''      ''"

text \<open>The \<open>responseSchema\<close> literal of lines 34 to 50, and the request of lines 18 to 52.\<close>

definition stepSchema :: schema where
  "stepSchema =
     Schema OBJECT
       (Some [(js ''title'', Schema STRING None None None),
              (js ''promptStrategy'', Schema STRING None None None),
              (js ''risk'', Schema STRING None None None)])
       None
       (Some [js ''title'', js ''promptStrategy'', js ''risk''])"

definition planSchema :: schema where
  "planSchema =
     Schema OBJECT
       (Some [(js ''steps'', Schema ARRAY None (Some stepSchema) None)])
       None
       None"

definition request :: "jsstring \<Rightarrow> lang \<Rightarrow> generateContentParameters" where
  "request taskDescription lang =
     \<lparr> model = js ''gemini-2.5-flash'',
       contents = prompt taskDescription lang,
       config = \<lparr> responseMimeType = js ''application/json'',
                  responseSchema = planSchema \<rparr> \<rparr>"

text \<open>
  The body of the \<open>try\<close> block (lines 18 to 56): one call of the service, then the response's text is
  read and, unless it is \<open>undefined\<close> or empty, parsed. A rejected call and a text
  that does not parse leave the block by an exception.
\<close>

definition try_block ::
  "environment \<Rightarrow> jsstring \<Rightarrow> lang \<Rightarrow> world \<Rightarrow> json completion \<times> world" where
  "try_block env taskDescription lang w =
     (let req = request taskDescription lang;
          w' = w\<lparr>calls := calls w @ [req]\<rparr>
      in case generateContent env (length (calls w)) req of
           Rejected reason \<Rightarrow> (Throws (ServiceError reason), w')
         | Resolved txt \<Rightarrow>
             (case txt of
                None \<Rightarrow> (Returns JNull, w')
              | Some t \<Rightarrow>
                  if t = [] then (Returns JNull, w')
                  else (case JSON_parse t of
                          None \<Rightarrow> (Throws SyntaxError, w')
                        | Some v \<Rightarrow> (Returns v, w'))))"

text \<open>
  The function (lines 7 to 62): the guard on the credential, the \<open>try\<close> block, and
  the \<open>catch\<close> that turns every exception into a log entry and \<open>null\<close>.
\<close>

definition generateExecutionPlan ::
  "environment \<Rightarrow> jsstring \<Rightarrow> lang \<Rightarrow> world \<Rightarrow> json completion \<times> world" where
  "generateExecutionPlan env taskDescription lang w =
     (if apiKey env = [] then
        (Returns JNull, w\<lparr>console := console w @ [[LogString (js ''API Key is missing'')]]\<rparr>)
      else
        (case try_block env taskDescription lang w of
           (Throws e, w') \<Rightarrow>
             (Returns JNull,
              w'\<lparr>console := console w' @ [[LogString (js ''Error generating plan:''), LogError e]]\<rparr>)
         | (Returns v, w') \<Rightarrow> (Returns v, w')))"

text \<open>Calls made one after the other, each on the world the one before left.\<close>

fun generateExecutionPlans ::
  "environment \<Rightarrow> (jsstring \<times> lang) list \<Rightarrow> world \<Rightarrow> json completion list \<times> world" where
  "generateExecutionPlans env [] w = ([], w)"
| "generateExecutionPlans env ((taskDescription, lang) # rest) w =
     (case generateExecutionPlan env taskDescription lang w of
        (r, w') \<Rightarrow>
          (case generateExecutionPlans env rest w' of
             (rs, w'') \<Rightarrow> (r # rs, w'')))"

text \<open>
  The reading of a returned value as a \<open>PlannerResponse\<close>: its \<open>steps\<close>, and of each
  step the three strings, as the component that renders the plan reads them.
\<close>

record planStep =
  title :: jsstring
  promptStrategy :: jsstring
  risk :: jsstring

definition string_member :: "(jsstring \<times> json) list \<Rightarrow> jsstring \<Rightarrow> jsstring option" where
  "string_member ms k = (case get_member ms k of Some (JString s) \<Rightarrow> Some s | _ \<Rightarrow> None)"

definition step_of :: "json \<Rightarrow> planStep option" where
  "step_of v =
     (case v of
        JObject ms \<Rightarrow>
          (case (string_member ms (js ''title''),
                 string_member ms (js ''promptStrategy''),
                 string_member ms (js ''risk'')) of
             (Some t, Some p, Some r) \<Rightarrow> Some \<lparr> title = t, promptStrategy = p, risk = r \<rparr>
           | _ \<Rightarrow> None)
      | _ \<Rightarrow> None)"

fun steps_of_list :: "json list \<Rightarrow> planStep list option" where
  "steps_of_list [] = Some []"
| "steps_of_list (v # vs) =
     (case step_of v of
        None \<Rightarrow> None
      | Some s \<Rightarrow> map_option ((#) s) (steps_of_list vs))"

definition steps_of :: "json \<Rightarrow> planStep list option" where
  "steps_of v =
     (case v of
        JObject ms \<Rightarrow>
          (case get_member ms (js ''steps'') of
             Some (JArray vs) \<Rightarrow> steps_of_list vs
           | _ \<Rightarrow> None)
      | _ \<Rightarrow> None)"

text \<open>
  Not code of the module: what it is for a value to conform to the response schema with
  the steps \<open>ss\<close>. It is an object with no key twice whose \<open>steps\<close> is an array of
  objects, one for each step of \<open>ss\<close> in order, each with no key twice and with the
  step's \<open>title\<close>, \<open>promptStrategy\<close> and \<open>risk\<close> as strings.
\<close>

definition step_value :: "planStep \<Rightarrow> json \<Rightarrow> bool" where
  "step_value s v =
     (case v of
        JObject ms \<Rightarrow>
          distinct (map fst ms) \<and>
          (js ''title'', JString (title s)) \<in> set ms \<and>
          (js ''promptStrategy'', JString (promptStrategy s)) \<in> set ms \<and>
          (js ''risk'', JString (risk s)) \<in> set ms
      | _ \<Rightarrow> False)"

definition plan_value :: "planStep list \<Rightarrow> json \<Rightarrow> bool" where
  "plan_value ss v =
     (case v of
        JObject ms \<Rightarrow>
          distinct (map fst ms) \<and>
          (case map_of ms (js ''steps'') of
             Some (JArray vs) \<Rightarrow> list_all2 step_value ss vs
           | _ \<Rightarrow> False)
      | _ \<Rightarrow> False)"

section \<open>Payloads that conform to the response schema\<close>

text \<open>
  Not code of the module: the JSON text of a plan as a service that follows the
  response schema sends it, in compact form. In a string the quote, the backslash and
  the control characters are escaped. \<open>plan_json\<close> is the value such a text stands
  for, and \<open>steps_tokens\<close> the tokens between the brackets of its \<open>steps\<close>.
\<close>

definition hexDigit :: "code_unit \<Rightarrow> code_unit" where
  "hexDigit n = (if n < 10 then 0x30 + n else 0x57 + n)"

definition escape :: "code_unit \<Rightarrow> jsstring" where
  "escape c =
     (if c = 0x22 then [0x5C, 0x22]
      else if c = 0x5C then [0x5C, 0x5C]
      else if c < 0x20 then [0x5C, 0x75, 0x30, 0x30, hexDigit (c div 16), hexDigit (c mod 16)]
      else [c])"

definition quote :: "jsstring \<Rightarrow> jsstring" where
  "quote s = 0x22 # concat (map escape s) @ [0x22]"

definition step_text :: "planStep \<Rightarrow> jsstring" where
  "step_text s =
     [0x7B] @ quote (js ''title'') @ [0x3A] @ quote (title s) @ [0x2C]
     @ quote (js ''promptStrategy'') @ [0x3A] @ quote (promptStrategy s) @ [0x2C]
     @ quote (js ''risk'') @ [0x3A] @ quote (risk s) @ [0x7D]"

fun steps_text :: "planStep list \<Rightarrow> jsstring" where
  "steps_text [] = []"
| "steps_text [s] = step_text s"
| "steps_text (s # ss) = step_text s @ [0x2C] @ steps_text ss"

definition payload :: "planStep list \<Rightarrow> jsstring" where
  "payload ss = [0x7B] @ quote (js ''steps'') @ [0x3A, 0x5B] @ steps_text ss @ [0x5D, 0x7D]"

definition step_json :: "planStep \<Rightarrow> json" where
  "step_json s =
     JObject [(js ''title'', JString (title s)),
              (js ''promptStrategy'', JString (promptStrategy s)),
              (js ''risk'', JString (risk s))]"

definition plan_json :: "planStep list \<Rightarrow> json" where
  "plan_json ss = JObject [(js ''steps'', JArray (map step_json ss))]"

definition step_tokens :: "planStep \<Rightarrow> token list" where
  "step_tokens s =
     [TLBrace, TString (js ''title''), TColon, TString (title s), TComma,
      TString (js ''promptStrategy''), TColon, TString (promptStrategy s), TComma,
      TString (js ''risk''), TColon, TString (risk s), TRBrace]"

fun steps_tokens :: "planStep list \<Rightarrow> token list" where
  "steps_tokens [] = []"
| "steps_tokens [s] = step_tokens s"
| "steps_tokens (s # ss) = step_tokens s @ [TComma] @ steps_tokens ss"

section \<open>components/PlannerTool.tsx\<close>

text \<open>
  \<open>String.prototype.trim\<close> strips the WhiteSpace and LineTerminator code units from
  both ends.
\<close>

definition isWhiteSpace :: "code_unit \<Rightarrow> bool" where
  "isWhiteSpace c =
     (c = 0x09 \<or> c = 0x0A \<or> c = 0x0B \<or> c = 0x0C \<or> c = 0x0D \<or> c = 0x20 \<or> c = 0xA0 \<or>
      c = 0x1680 \<or> (0x2000 \<le> c \<and> c \<le> 0x200A) \<or> c = 0x2028 \<or> c = 0x2029 \<or>
      c = 0x202F \<or> c = 0x205F \<or> c = 0x3000 \<or> c = 0xFEFF)"

definition trim :: "jsstring \<Rightarrow> jsstring" where
  "trim s = rev (dropWhile isWhiteSpace (rev (dropWhile isWhiteSpace s)))"

text \<open>
  The four \<open>useState\<close> cells (lines 11 to 14); \<open>plan\<close> is \<open>JNull\<close> and \<open>error\<close> is
  \<open>None\<close> for \<open>null\<close>.
\<close>

record plannerState =
  input :: jsstring
  plan :: json
  loading :: bool
  error :: "jsstring option"

text \<open>
  The message \<open>t.error\<close> (line 28) of the render whose handler runs; the second is
  the Chinese text, in code units.
\<close>

definition t_error :: "lang \<Rightarrow> jsstring" where
  "t_error lang =
     (if lang = En then js ''Generation failed. Please check your API Key or try again.''
      else [0x751F, 0x6210, 0x5931, 0x8D25, 0x3002, 0x8BF7, 0x68C0, 0x67E5, 0x20, 0x41,
            0x50, 0x49, 0x20, 0x4B, 0x65, 0x79, 0x20, 0x6216, 0x91CD, 0x8BD5, 0x3002])"

text \<open>
  A mounted component: its state, its \<open>lang\<close> prop, the executions of \<open>handlePlan\<close>
  suspended at their \<open>await\<close> (each with the completion it waits for and the \<open>lang\<close>
  its closure holds), and the world the service module acts on.
\<close>

record plannerTool =
  state :: plannerState
  props_lang :: lang
  awaiting :: "(json completion \<times> lang) list"
  world :: world

definition mount :: "lang \<Rightarrow> world \<Rightarrow> plannerTool" where
  "mount l w =
     \<lparr> state = \<lparr> input = [], plan = JNull, loading = False, error = None \<rparr>,
       props_lang = l, awaiting = [], world = w \<rparr>"

text \<open>
  \<open>handlePlan\<close> (lines 31 to 49) up to its \<open>await\<close>: the guard, the three state
  updates, and the call of \<open>generateExecutionPlan\<close>. The call acts on the world here;
  its completion is what the suspended execution waits for.
\<close>

definition handlePlan :: "environment \<Rightarrow> plannerTool \<Rightarrow> plannerTool" where
  "handlePlan env c =
     (if trim (input (state c)) = [] then c
      else
        (case generateExecutionPlan env (input (state c)) (props_lang c) (world c) of
           (r, w') \<Rightarrow>
             c\<lparr>state := (state c)\<lparr>loading := True, error := None, plan := JNull\<rparr>,
               awaiting := awaiting c @ [(r, props_lang c)],
               world := w'\<rparr>))"

text \<open>
  The rest of \<open>handlePlan\<close>, run when the awaited promise settles: the result is
  stored if it is truthy, the error message otherwise and on an exception; \<open>finally\<close>
  clears \<open>loading\<close>.
\<close>

definition handlePlan_resume :: "plannerTool \<Rightarrow> plannerTool" where
  "handlePlan_resume c =
     (case awaiting c of
        [] \<Rightarrow> c
      | (r, l) # rest \<Rightarrow>
          (let s = (case r of
                      Returns result \<Rightarrow>
                        if truthy result then (state c)\<lparr>plan := result\<rparr>
                        else (state c)\<lparr>error := Some (t_error l)\<rparr>
                    | Throws e \<Rightarrow> (state c)\<lparr>error := Some (t_error l)\<rparr>)
           in c\<lparr>state := s\<lparr>loading := False\<rparr>, awaiting := rest\<rparr>))"

text \<open>The button's \<open>disabled\<close> attribute (line 71): \<open>loading || !input\<close>.\<close>

definition disabled :: "plannerState \<Rightarrow> bool" where
  "disabled s = (loading s \<or> input s = [])"

text \<open>
  What can happen to a mounted component: the textarea changes (line 65), the button
  is clicked (line 70; a disabled button fires no handler), the oldest awaited promise
  settles, the parent passes another \<open>lang\<close>. Each event runs to its end, and the
  component has rendered the state it wrote before the next one arrives.
\<close>

datatype event = Change jsstring | Click | Settle | Props lang

fun step :: "environment \<Rightarrow> plannerTool \<Rightarrow> event \<Rightarrow> plannerTool" where
  "step env c (Change s) = c\<lparr>state := (state c)\<lparr>input := s\<rparr>\<rparr>"
| "step env c Click = (if disabled (state c) then c else handlePlan env c)"
| "step env c Settle = handlePlan_resume c"
| "step env c (Props l) = c\<lparr>props_lang := l\<rparr>"

definition run :: "environment \<Rightarrow> plannerTool \<Rightarrow> event list \<Rightarrow> plannerTool" where
  "run env c evs = foldl (step env) c evs"

text \<open>What holds of a component after every sequence of events.\<close>

definition consistent :: "plannerTool \<Rightarrow> bool" where
  "consistent c =
     (length (awaiting c) \<le> 1 \<and>
      loading (state c) = (awaiting c \<noteq> []) \<and>
      (if awaiting c \<noteq> [] then plan (state c) = JNull \<and> error (state c) = None
       else plan (state c) = JNull \<or> error (state c) = None))"

section \<open>Scenarios\<close>

text \<open>
  A mocked service that answers every request alike, the world before any call, and
  the one-step payload of the specification's first scenario.
\<close>

definition mock :: "jsstring option \<Rightarrow> reply \<Rightarrow> environment" where
  "mock key r = \<lparr> API_KEY = key, generateContent = (\<lambda>n req. r) \<rparr>"

definition fresh :: world where
  "fresh = \<lparr> calls = [], console = [] \<rparr>"

definition scenarioA :: jsstring where
  "scenarioA = js ''{\"steps\":[{\"title\":\"Define types\",\"promptStrategy\":\"Ask for interface only\",\"risk\":\"Hallucinated fields\"}]}''"

text \<open>The value of a payload whose one step has a \<open>title\<close> only.\<close>

definition titleOnly :: json where
  "titleOnly = JObject [(js ''steps'', JArray [JObject [(js ''title'', JString (js ''Define types''))]])]"

text \<open>
  Two conforming payloads that are not compact: one with no steps and a space, and one
  laid out over several lines, with the keys in another order, a key and a value
  written with escapes, and a member more than the schema names.
\<close>

definition raw :: "string \<Rightarrow> schar list" where
  "raw s = map Raw (js s)"

definition spaced :: cst where
  "spaced = CObject [CMember [] (raw ''steps'') [] (Pad [SP] (CEmptyArray []) [])]"

definition laidOut :: cst where
  "laidOut =
     CObject
       [CMember [LF, SP] (raw ''steps'') [SP]
          (Pad [SP]
             (CArray
                [Pad [LF]
                   (CObject
                      [CMember [] (raw ''risk'') [] (Pad [SP] (CString (raw ''Hallucinated fields'')) []),
                       CMember [SP] (Uni (False, 0) (False, 0) (False, 7) (False, 4) # raw ''itle'') []
                         (CString (raw ''Define types'')),
                       CMember [] (raw ''promptStrategy'') []
                         (CString (raw ''Ask for'' @ [Short 0x0A] @ raw ''interface only'')),
                       CMember [] (raw ''id'') [] (CNumber False [1] [] None)])
                   [LF]])
             [LF])]"

text \<open>A task description, a whitespace-only input, and the value of the one-step payload.\<close>

definition task :: jsstring where
  "task = js ''Add a login page''"

definition blank :: jsstring where
  "blank = [0x20, 0x0A, 0x09, 0x3000, 0x20]"

definition planA :: json where
  "planA = JObject [(js ''steps'', JArray [JObject
       [(js ''title'', JString (js ''Define types'')),
        (js ''promptStrategy'', JString (js ''Ask for interface only'')),
        (js ''risk'', JString (js ''Hallucinated fields''))]])]"

section \<open>The paths through generateExecutionPlan\<close>

lemma JSON_parse_empty: "JSON_parse [] = None"
  by (simp add: JSON_parse_def)

lemma generateExecutionPlan_no_key:
  "apiKey env = [] \<Longrightarrow>
   generateExecutionPlan env taskDescription lang w =
     (Returns JNull, w\<lparr>console := console w @ [[LogString (js ''API Key is missing'')]]\<rparr>)"
  by (simp add: generateExecutionPlan_def)

lemma generateExecutionPlan_rejected:
  "apiKey env \<noteq> [] \<Longrightarrow>
   generateContent env (length (calls w)) (request taskDescription lang) = Rejected reason \<Longrightarrow>
   generateExecutionPlan env taskDescription lang w =
     (Returns JNull,
      w\<lparr>calls := calls w @ [request taskDescription lang],
        console := console w @
          [[LogString (js ''Error generating plan:''), LogError (ServiceError reason)]]\<rparr>)"
  by (simp add: generateExecutionPlan_def try_block_def)

lemma generateExecutionPlan_no_text:
  "apiKey env \<noteq> [] \<Longrightarrow>
   generateContent env (length (calls w)) (request taskDescription lang) = Resolved txt \<Longrightarrow>
   txt = None \<or> txt = Some [] \<Longrightarrow>
   generateExecutionPlan env taskDescription lang w =
     (Returns JNull, w\<lparr>calls := calls w @ [request taskDescription lang]\<rparr>)"
  by (auto simp: generateExecutionPlan_def try_block_def)

lemma generateExecutionPlan_unparsable:
  "apiKey env \<noteq> [] \<Longrightarrow>
   generateContent env (length (calls w)) (request taskDescription lang) = Resolved (Some t) \<Longrightarrow>
   t \<noteq> [] \<Longrightarrow> JSON_parse t = None \<Longrightarrow>
   generateExecutionPlan env taskDescription lang w =
     (Returns JNull,
      w\<lparr>calls := calls w @ [request taskDescription lang],
        console := console w @
          [[LogString (js ''Error generating plan:''), LogError SyntaxError]]\<rparr>)"
  by (simp add: generateExecutionPlan_def try_block_def)

lemma generateExecutionPlan_parsed:
  "apiKey env \<noteq> [] \<Longrightarrow>
   generateContent env (length (calls w)) (request taskDescription lang) = Resolved (Some t) \<Longrightarrow>
   JSON_parse t = Some v \<Longrightarrow>
   generateExecutionPlan env taskDescription lang w =
     (Returns v, w\<lparr>calls := calls w @ [request taskDescription lang]\<rparr>)"
proof -
  assume k: "apiKey env \<noteq> []"
    and r: "generateContent env (length (calls w)) (request taskDescription lang) = Resolved (Some t)"
    and p: "JSON_parse t = Some v"
  from p JSON_parse_empty have "t \<noteq> []" by auto
  with k r p show ?thesis
    by (simp add: generateExecutionPlan_def try_block_def)
qed

lemma generateExecutionPlan_returns:
  "\<exists>v. fst (generateExecutionPlan env taskDescription lang w) = Returns v"
  by (auto simp: generateExecutionPlan_def split: prod.splits completion.splits)

lemma apiKey_mock [simp]: "apiKey (mock (Some (js ''key'')) r) = js ''key''"
  by (simp add: apiKey_def mock_def js_def)

lemma apiKey_mock_None [simp]: "apiKey (mock None r) = []"
  by (simp add: apiKey_def mock_def js_def)

lemma generateContent_mock [simp]: "generateContent (mock k r) n req = r"
  by (simp add: mock_def)

lemma parse_empty_object: "JSON_parse (js ''{}'') = Some (JObject [])"
  by (simp add: JSON_parse_def js_def isJSONWhitespace_def)

lemma parse_scenarioA:
  "JSON_parse scenarioA =
     Some (JObject [(js ''steps'', JArray [JObject
       [(js ''title'', JString (js ''Define types'')),
        (js ''promptStrategy'', JString (js ''Ask for interface only'')),
        (js ''risk'', JString (js ''Hallucinated fields''))]])])"
  by code_simp

lemma steps_scenarioA:
  "steps_of (JObject [(js ''steps'', JArray [JObject
       [(js ''title'', JString (js ''Define types'')),
        (js ''promptStrategy'', JString (js ''Ask for interface only'')),
        (js ''risk'', JString (js ''Hallucinated fields''))]])])
   = Some [\<lparr> title = js ''Define types'', promptStrategy = js ''Ask for interface only'',
             risk = js ''Hallucinated fields'' \<rparr>]"
  by code_simp

lemma parse_titleOnly:
  "JSON_parse (js ''{\"steps\":[{\"title\":\"Define types\"}]}'') = Some titleOnly"
  by code_simp

lemma steps_titleOnly: "steps_of titleOnly = None"
  by code_simp

lemma parse_garbage: "JSON_parse (js ''Sorry, I cannot help'') = None"
  by code_simp

lemma parse_null: "JSON_parse (js ''null'') = Some JNull"
  by code_simp

lemma generateExecutionPlans_no_key:
  "apiKey env = [] \<Longrightarrow>
   generateExecutionPlans env reqs w =
     (replicate (length reqs) (Returns JNull),
      w\<lparr>console := console w @
           replicate (length reqs) [LogString (js ''API Key is missing'')]\<rparr>)"
proof (induction reqs arbitrary: w)
  case Nil
  then show ?case by simp
next
  case (Cons q reqs)
  obtain t l where q: "q = (t, l)" by (cases q)
  from Cons.prems show ?case
    by (simp add: q generateExecutionPlan_no_key Cons.IH replicate_app_Cons_same)
qed

lemma apiKey_mock_key: "apiKey (mock (Some (js ''key'')) r) \<noteq> []"
  by (simp add: apiKey_def mock_def js_def)

section \<open>The component's executions\<close>

lemma consistent_mount: "consistent (mount l w)"
  by (simp add: consistent_def mount_def)

lemma consistent_handlePlan:
  "consistent c \<Longrightarrow> \<not> disabled (state c) \<Longrightarrow> consistent (handlePlan env c)"
  by (auto simp: consistent_def handlePlan_def disabled_def split: prod.splits)

lemma consistent_resume: "consistent c \<Longrightarrow> consistent (handlePlan_resume c)"
  by (cases "awaiting c")
     (auto simp: consistent_def handlePlan_resume_def Let_def split: completion.splits)

lemma consistent_step: "consistent c \<Longrightarrow> consistent (step env c e)"
proof (cases e)
  case (Change s)
  assume "consistent c"
  with Change show ?thesis by (simp add: consistent_def)
next
  case Click
  assume "consistent c"
  with Click show ?thesis by (simp add: consistent_handlePlan)
next
  case Settle
  assume "consistent c"
  with Settle show ?thesis by (simp add: consistent_resume)
next
  case (Props l)
  assume "consistent c"
  with Props show ?thesis by (simp add: consistent_def)
qed

lemma consistent_run: "consistent c \<Longrightarrow> consistent (run env c evs)"
  unfolding run_def
  by (induction evs arbitrary: c) (simp_all add: consistent_step)

lemma consistent_reachable: "consistent (run env (mount l w) evs)"
  by (rule consistent_run [OF consistent_mount])

lemma truthy_not_null: "truthy v \<Longrightarrow> v \<noteq> JNull"
  by auto

lemma handlePlan_begins:
  "trim (input (state c)) \<noteq> [] \<Longrightarrow>
   plan (state (handlePlan env c)) = JNull \<and> error (state (handlePlan env c)) = None \<and>
   loading (state (handlePlan env c)) \<and>
   awaiting (handlePlan env c) =
     awaiting c @ [(fst (generateExecutionPlan env (input (state c)) (props_lang c) (world c)),
                    props_lang c)]"
  by (simp add: handlePlan_def split: prod.splits)

lemma handlePlan_completes:
  "trim (input (state c)) \<noteq> [] \<Longrightarrow> awaiting c = [] \<Longrightarrow>
   (plan (state (handlePlan_resume (handlePlan env c))) \<noteq> JNull) =
     (error (state (handlePlan_resume (handlePlan env c))) = None) \<and>
   \<not> loading (state (handlePlan_resume (handlePlan env c))) \<and>
   awaiting (handlePlan_resume (handlePlan env c)) = []"
  by (auto simp: handlePlan_def handlePlan_resume_def Let_def
        split: prod.splits completion.splits dest: truthy_not_null)

lemma trim_task: "trim task = task"
  by (simp add: task_def trim_def js_def isWhiteSpace_def)

lemma task_not_empty: "task \<noteq> []"
  by (simp add: task_def js_def)

lemma trim_blank: "trim blank = []"
  by (simp add: blank_def trim_def isWhiteSpace_def)

lemma mockA: "generateExecutionPlan (mock (Some (js ''key'')) (Resolved (Some scenarioA))) t l w =
   (Returns planA, w\<lparr>calls := calls w @ [request t l]\<rparr>)"
  unfolding planA_def
  by (rule generateExecutionPlan_parsed [OF apiKey_mock_key _ parse_scenarioA]) simp

lemma run_clicked:
  "run (mock (Some (js ''key'')) (Resolved (Some scenarioA))) (mount En fresh) [Change task, Click] =
     \<lparr> state = \<lparr> input = task, plan = JNull, loading = True, error = None \<rparr>,
       props_lang = En, awaiting = [(Returns planA, En)],
       world = \<lparr> calls = [request task En], console = [] \<rparr> \<rparr>"
  by (simp add: run_def mount_def disabled_def handlePlan_def trim_task task_not_empty mockA fresh_def)

lemma run_settled:
  "run (mock (Some (js ''key'')) (Resolved (Some scenarioA))) (mount En fresh) [Change task, Click, Settle] =
     \<lparr> state = \<lparr> input = task, plan = planA, loading = False, error = None \<rparr>,
       props_lang = En, awaiting = [],
       world = \<lparr> calls = [request task En], console = [] \<rparr> \<rparr>"
proof -
  have "run (mock (Some (js ''key'')) (Resolved (Some scenarioA))) (mount En fresh) [Change task, Click, Settle]
      = handlePlan_resume (run (mock (Some (js ''key'')) (Resolved (Some scenarioA))) (mount En fresh) [Change task, Click])"
    by (simp add: run_def)
  then show ?thesis
    unfolding run_clicked by (simp add: handlePlan_resume_def planA_def)
qed

section \<open>The payload of a plan parses to the plan\<close>

lemma hex4_all_controls:
  "list_all (\<lambda>c. hex4 [0x30, 0x30, hexDigit (c div 16), hexDigit (c mod 16)] = Some c)
     (map of_nat [0..<32])"
  by code_simp

lemma control_cases:
  "c < (0x20 :: code_unit) \<Longrightarrow> c \<in> set (map of_nat [0..<32])"
proof -
  assume "c < 0x20"
  then have "unat c < 32" by (simp add: word_less_nat_alt)
  then have "unat c \<in> set [0..<32]" by simp
  then have "word_of_nat (unat c) \<in> (word_of_nat ` set [0..<32] :: code_unit set)"
    by (rule imageI)
  then show ?thesis by simp
qed

lemma hex4_control:
  "c < (0x20 :: code_unit) \<Longrightarrow> hex4 [0x30, 0x30, hexDigit (c div 16), hexDigit (c mod 16)] = Some c"
  using hex4_all_controls control_cases [of c] unfolding list_all_iff by blast

lemma lex_string_escaped:
  "lex_string (concat (map escape s) @ 0x22 # rest) = Some (s, rest)"
proof (induction s)
  case Nil
  show ?case by simp
next
  case (Cons c s)
  consider "c = 0x22" | "c = 0x5C" | "c \<noteq> 0x22" "c \<noteq> 0x5C" "c < 0x20"
    | "c \<noteq> 0x22" "c \<noteq> 0x5C" "\<not> c < 0x20"
    by blast
  then show ?case
  proof cases
    case 1
    with Cons.IH show ?thesis by (simp add: escape_def unescape_def)
  next
    case 2
    with Cons.IH show ?thesis by (simp add: escape_def unescape_def)
  next
    case 3
    with Cons.IH hex4_control [OF 3(3)] show ?thesis by (simp add: escape_def)
  next
    case 4
    with Cons.IH show ?thesis by (simp add: escape_def)
  qed
qed

lemma lex_quote:
  "lex (quote s @ rest) = map_option ((#) (TString s)) (lex rest)"
  using lex_string_escaped [of s rest]
  by (simp add: quote_def isJSONWhitespace_def)

lemma lex_step_text:
  "lex (step_text s @ rest) = map_option (\<lambda>ts. step_tokens s @ ts) (lex rest)"
  by (simp add: step_text_def step_tokens_def lex_punct lex_quote option.map_comp comp_def
           del: lex.simps)

lemma lex_steps_text:
  "lex (steps_text ss @ rest) = map_option (\<lambda>ts. steps_tokens ss @ ts) (lex rest)"
proof (induction ss arbitrary: rest rule: steps_text.induct)
  case 1
  show ?case by (simp add: option.map_ident)
next
  case (2 s)
  show ?case by (simp add: lex_step_text)
next
  case (3 s s' ss)
  show ?case
    by (simp add: lex_step_text lex_punct "3.IH" option.map_comp comp_def del: lex.simps)
qed

lemma parse_step_tokens:
  "parse_value (step_tokens s @ rest) = Some (step_json s, rest)"
  by (simp add: step_tokens_def step_json_def)

lemma length_step_tokens: "length (step_tokens s) = 13"
  by (simp add: step_tokens_def)

lemma parse_elements_unfold:
  "ts \<noteq> [] \<Longrightarrow>
   parse_elements ts =
     (case parse_value ts of
        None \<Rightarrow> None
      | Some (v, r) \<Rightarrow>
          if length r < length ts then
            (case expect TRBracket r of
               Some r' \<Rightarrow> Some ([v], r')
             | None \<Rightarrow>
                 (case expect TComma r of
                    Some r' \<Rightarrow> map_option (\<lambda>(vs, r''). (v # vs, r'')) (parse_elements r')
                  | None \<Rightarrow> None))
          else None)"
proof (cases ts)
  case Nil
  assume "ts \<noteq> []"
  with Nil show ?thesis by simp
next
  case (Cons t ts')
  show ?thesis unfolding Cons by (rule parse_elements.simps)
qed

lemma parse_steps_tokens:
  "ss \<noteq> [] \<Longrightarrow>
   parse_elements (steps_tokens ss @ TRBracket # rest) = Some (map step_json ss, rest)"
proof (induction ss rule: steps_tokens.induct)
  case 1
  then show ?case by simp
next
  case (2 s)
  have "step_tokens s @ TRBracket # rest \<noteq> []" by simp
  from parse_elements_unfold [OF this] show ?case
    by (simp add: parse_step_tokens length_step_tokens
             del: parse_value.simps parse_elements.simps)
next
  case (3 s s' ss)
  have "step_tokens s @ TComma # steps_tokens (s' # ss) @ TRBracket # rest \<noteq> []" by simp
  from parse_elements_unfold [OF this] "3.IH" show ?case
    by (simp add: parse_step_tokens length_step_tokens
             del: parse_value.simps parse_elements.simps)
qed

lemma parse_plan_tokens:
  "parse_value (TLBrace # TString (js ''steps'') # TColon # TLBracket #
                steps_tokens ss @ [TRBracket, TRBrace]) = Some (plan_json ss, [])"
proof (cases "ss = []")
  case True
  then show ?thesis by (simp add: plan_json_def)
next
  case False
  have ne: "steps_tokens ss \<noteq> []"
    using False by (cases ss rule: steps_tokens.cases) (simp_all add: step_tokens_def)
  then obtain t ts where tts: "steps_tokens ss = t # ts" by (cases "steps_tokens ss") auto
  have hd: "expect TRBracket (steps_tokens ss @ [TRBracket, TRBrace]) = None"
    using False by (cases ss rule: steps_tokens.cases) (simp_all add: step_tokens_def)
  have el: "parse_elements (steps_tokens ss @ [TRBracket, TRBrace]) =
      Some (map step_json ss, [TRBrace])"
    using parse_steps_tokens [OF False, of "[TRBrace]"] by simp
  have inner: "parse_value (TLBracket # steps_tokens ss @ [TRBracket, TRBrace]) =
      Some (JArray (map step_json ss), [TRBrace])"
    by (simp add: hd el del: parse_elements.simps)
  show ?thesis
    by (simp add: inner plan_json_def del: parse_value.simps parse_elements.simps
          add: parse_value.simps(2) [of TLBrace])
qed


lemma lex_payload:
  "lex (payload ss) =
     Some (TLBrace # TString (js ''steps'') # TColon # TLBracket #
           steps_tokens ss @ [TRBracket, TRBrace])"
  by (simp add: payload_def lex_punct lex_quote lex_steps_text del: lex.simps(2))

lemma JSON_parse_payload: "JSON_parse (payload ss) = Some (plan_json ss)"
  by (simp add: JSON_parse_def lex_payload parse_plan_tokens del: parse_value.simps)

lemma step_of_step_json: "step_of (step_json s) = Some s"
  by (simp add: step_of_def step_json_def string_member_def js_def)

lemma steps_of_list_step_json: "steps_of_list (map step_json ss) = Some ss"
  by (induction ss) (simp_all add: step_of_step_json)

lemma steps_of_plan_json: "steps_of (plan_json ss) = Some ss"
  by (simp add: steps_of_def plan_json_def steps_of_list_step_json)

lemma payload_scenarioA:
  "payload [\<lparr> title = js ''Define types'', promptStrategy = js ''Ask for interface only'',
             risk = js ''Hallucinated fields'' \<rparr>] = scenarioA"
  by (simp add: payload_def quote_def escape_def js_def step_text_def scenarioA_def)

section \<open>Reading the steps of a conforming value\<close>

lemma get_member_distinct:
  "distinct (map fst ms) \<Longrightarrow> get_member ms k = map_of ms k"
proof (induction ms)
  case Nil
  show ?case by simp
next
  case (Cons m ms)
  obtain k' v where m: "m = (k', v)" by (cases m)
  from Cons.prems m have d: "distinct (map fst ms)" and nk: "k' \<notin> fst ` set ms" by simp_all
  show ?case
  proof (cases "k' = k")
    case True
    with nk have "map_of ms k = None" by (simp add: map_of_eq_None_iff)
    with Cons.IH [OF d] True m show ?thesis by simp
  next
    case False
    with Cons.IH [OF d] m show ?thesis by (simp split: option.splits)
  qed
qed

lemma step_of_step_value: "step_value s v \<Longrightarrow> step_of v = Some s"
proof (cases v)
  case (JObject ms)
  assume "step_value s v"
  with JObject have d: "distinct (map fst ms)"
    and t: "(js ''title'', JString (title s)) \<in> set ms"
    and p: "(js ''promptStrategy'', JString (promptStrategy s)) \<in> set ms"
    and r: "(js ''risk'', JString (risk s)) \<in> set ms"
    by (simp_all add: step_value_def)
  from d t p r have "get_member ms (js ''title'') = Some (JString (title s))"
    "get_member ms (js ''promptStrategy'') = Some (JString (promptStrategy s))"
    "get_member ms (js ''risk'') = Some (JString (risk s))"
    by (simp_all add: get_member_distinct)
  with JObject show ?thesis by (simp add: step_of_def string_member_def)
qed (simp_all add: step_value_def)

lemma steps_of_list_step_values:
  "list_all2 step_value ss vs \<Longrightarrow> steps_of_list vs = Some ss"
  by (induction ss vs rule: list_all2_induct) (simp_all add: step_of_step_value)

lemma steps_of_plan_value: "plan_value ss v \<Longrightarrow> steps_of v = Some ss"
proof (cases v)
  case (JObject ms)
  assume "plan_value ss v"
  with JObject obtain vs where d: "distinct (map fst ms)"
    and m: "map_of ms (js ''steps'') = Some (JArray vs)" and l: "list_all2 step_value ss vs"
    by (auto simp: plan_value_def split: option.splits json.splits)
  with JObject show ?thesis
    by (simp add: steps_of_def get_member_distinct steps_of_list_step_values)
qed (simp_all add: plan_value_def)

lemma render_spaced: "render spaced = js ''{\"steps\": []}''"
  by code_simp

lemma render_laidOut:
  "render laidOut =
     js ''{'' @ [0x0A] @ js '' \"steps\" : ['' @ [0x0A]
     @ js ''{\"risk\": \"Hallucinated fields\", \"'' @ [0x5C] @ js ''u0074itle\":\"Define types\",''
     @ js ''\"promptStrategy\":\"Ask for'' @ [0x5C] @ js ''ninterface only\",\"id\":1}'' @ [0x0A]
     @ js '']'' @ [0x0A] @ js ''}''"
  by code_simp

lemma well_formed_examples: "well_formed spaced" "well_formed laidOut"
  by code_simp+

lemma plan_value_spaced: "plan_value [] (denotes spaced)"
  by code_simp

lemma plan_value_laidOut:
  "plan_value [\<lparr> title = js ''Define types'',
                 promptStrategy = js ''Ask for'' @ [0x0A] @ js ''interface only'',
                 risk = js ''Hallucinated fields'' \<rparr>] (denotes laidOut)"
  by code_simp

section \<open>Properties of generateExecutionPlan\<close>

text \<open>
  C1, as stated: a response body that is valid JSON but lacks a required field (the
  object \<open>{}\<close>, with no \<open>steps\<close>) makes \<open>generateExecutionPlan\<close> return \<open>null\<close>.
  The code does not do that: the value \<open>JSON.parse\<close> gives is returned as it is, under
  a type assertion, and \<open>{}\<close> comes back as \<open>{}\<close>.
\<close>

theorem empty_object_is_returned_counterexample:
  "JSON_parse (js ''{}'') = Some (JObject []) \<and>
   steps_of (JObject []) = None \<and>
   fst (generateExecutionPlan (mock (Some (js ''key'')) (Resolved (Some (js ''{}''))))
          (js ''Add a login page'') En fresh) = Returns (JObject []) \<and>
   fst (generateExecutionPlan (mock (Some (js ''key'')) (Resolved (Some (js ''{}''))))
          (js ''Add a login page'') En fresh) \<noteq> Returns JNull \<and>
   JSON_parse (js ''{\"steps\":[{\"title\":\"Define types\"}]}'') = Some titleOnly \<and>
   steps_of titleOnly = None \<and>
   fst (generateExecutionPlan
          (mock (Some (js ''key''))
             (Resolved (Some (js ''{\"steps\":[{\"title\":\"Define types\"}]}''))))
          (js ''Add a login page'') En fresh) = Returns titleOnly \<and>
   titleOnly \<noteq> JNull"
proof -
  have 1: "generateExecutionPlan (mock (Some (js ''key'')) (Resolved (Some (js ''{}''))))
          (js ''Add a login page'') En fresh
        = (Returns (JObject []), fresh\<lparr>calls := calls fresh @ [request (js ''Add a login page'') En]\<rparr>)"
    by (rule generateExecutionPlan_parsed [OF apiKey_mock_key _ parse_empty_object]) simp
  have 2: "generateExecutionPlan
          (mock (Some (js ''key''))
             (Resolved (Some (js ''{\"steps\":[{\"title\":\"Define types\"}]}''))))
          (js ''Add a login page'') En fresh
        = (Returns titleOnly, fresh\<lparr>calls := calls fresh @ [request (js ''Add a login page'') En]\<rparr>)"
    by (rule generateExecutionPlan_parsed [OF apiKey_mock_key _ parse_titleOnly]) simp
  from 1 2 show ?thesis
    by (simp add: parse_empty_object parse_titleOnly steps_titleOnly)
       (simp add: steps_of_def titleOnly_def)
qed

text \<open>
  C1, amended: for every response whose body is valid JSON, \<open>generateExecutionPlan\<close>
  returns the parsed value unchanged, whether or not it has the required fields; the
  result is \<open>null\<close> only when the body parses to \<open>null\<close> itself.
\<close>

theorem parsed_value_returned_without_validation:
  assumes "apiKey env \<noteq> []"
    and "generateContent env (length (calls w)) (request taskDescription lang) = Resolved (Some t)"
    and "JSON_parse t = Some v"
  shows "fst (generateExecutionPlan env taskDescription lang w) = Returns v \<and>
         (fst (generateExecutionPlan env taskDescription lang w) = Returns JNull) = (v = JNull)"
  using generateExecutionPlan_parsed [OF assms] by simp

theorem parsed_value_returned_without_validation_witness:
  "apiKey (mock (Some (js ''key'')) (Resolved (Some (js ''{}'')))) \<noteq> [] \<and>
   generateContent (mock (Some (js ''key'')) (Resolved (Some (js ''{}''))))
     (length (calls fresh)) (request (js ''Add a login page'') En) = Resolved (Some (js ''{}'')) \<and>
   JSON_parse (js ''{}'') = Some (JObject []) \<and>
   fst (generateExecutionPlan (mock (Some (js ''key'')) (Resolved (Some (js ''{}''))))
          (js ''Add a login page'') En fresh) = Returns (JObject []) \<and>
   JSON_parse (js ''null'') = Some JNull \<and>
   fst (generateExecutionPlan (mock (Some (js ''key'')) (Resolved (Some (js ''null''))))
          (js ''Add a login page'') En fresh) = Returns JNull"
proof -
  have k: "apiKey (mock (Some (js ''key'')) (Resolved (Some (js ''{}'')))) \<noteq> []"
    by (rule apiKey_mock_key)
  have r: "generateContent (mock (Some (js ''key'')) (Resolved (Some (js ''{}''))))
     (length (calls fresh)) (request (js ''Add a login page'') En) = Resolved (Some (js ''{}''))"
    by simp
  have r': "generateContent (mock (Some (js ''key'')) (Resolved (Some (js ''null''))))
     (length (calls fresh)) (request (js ''Add a login page'') En) = Resolved (Some (js ''null''))"
    by simp
  from parsed_value_returned_without_validation [OF k r parse_empty_object]
    parsed_value_returned_without_validation [OF apiKey_mock_key r' parse_null]
    k r parse_empty_object parse_null
  show ?thesis by blast
qed

text \<open>
  C2: when the credential is absent, every call returns \<open>null\<close> and hands no request
  to the service, whatever the task description and the language; so does every call
  of a sequence of calls made one after the other.
\<close>

theorem missing_credential_no_result_no_call:
  assumes "apiKey env = []"
  shows "fst (generateExecutionPlan env taskDescription lang w) = Returns JNull \<and>
         calls (snd (generateExecutionPlan env taskDescription lang w)) = calls w \<and>
         fst (generateExecutionPlans env reqs w) = replicate (length reqs) (Returns JNull) \<and>
         calls (snd (generateExecutionPlans env reqs w)) = calls w"
  using assms by (simp add: generateExecutionPlan_no_key generateExecutionPlans_no_key)

theorem missing_credential_no_result_no_call_witness:
  "apiKey (mock None (Resolved (Some scenarioA))) = [] \<and>
   fst (generateExecutionPlan (mock None (Resolved (Some scenarioA)))
          (js ''Add a login page'') Zh fresh) = Returns JNull \<and>
   calls (snd (generateExecutionPlan (mock None (Resolved (Some scenarioA)))
          (js ''Add a login page'') Zh fresh)) = [] \<and>
   fst (generateExecutionPlans (mock None (Resolved (Some scenarioA)))
          [(js ''Add a login page'', En), (js ''Add a login page'', Zh),
           (js ''Add a login page'', En)] fresh)
     = [Returns JNull, Returns JNull, Returns JNull] \<and>
   calls (snd (generateExecutionPlans (mock None (Resolved (Some scenarioA)))
          [(js ''Add a login page'', En), (js ''Add a login page'', Zh),
           (js ''Add a login page'', En)] fresh)) = []"
proof -
  have k: "apiKey (mock None (Resolved (Some scenarioA))) = []" by simp
  from missing_credential_no_result_no_call [OF k, of "js ''Add a login page''" Zh fresh
      "[(js ''Add a login page'', En), (js ''Add a login page'', Zh),
        (js ''Add a login page'', En)]"] k
  show ?thesis by (simp add: fresh_def numeral_3_eq_3)
qed

text \<open>
  C3: when the service answers with a payload that conforms to the schema, with \<open>N\<close>
  step objects (any \<open>N\<close>, zero included), the returned value has exactly these \<open>N\<close>
  steps, in that order, with \<open>title\<close>, \<open>promptStrategy\<close> and \<open>risk\<close> of each
  unaltered. The payload is any JSON text, that is the text of any well-formed syntax
  tree, however it is spaced and escaped and in whatever order its members come, whose
  value conforms to the schema with the steps \<open>ss\<close>; the compact text \<open>payload ss\<close>
  is one such.
\<close>

theorem conforming_payload_steps_preserved:
  assumes "apiKey env \<noteq> []"
    and "generateContent env (length (calls w)) (request taskDescription lang) = Resolved (Some t)"
  shows "(well_formed c \<and> render c = t \<and> plan_value ss (denotes c) \<longrightarrow>
            fst (generateExecutionPlan env taskDescription lang w) = Returns (denotes c) \<and>
            steps_of (denotes c) = Some ss) \<and>
         (t = payload ss \<longrightarrow>
            (\<exists>r. fst (generateExecutionPlan env taskDescription lang w) = Returns r \<and>
                 steps_of r = Some ss))"
proof (rule conjI; rule impI)
  assume a: "well_formed c \<and> render c = t \<and> plan_value ss (denotes c)"
  then have p: "JSON_parse t = Some (denotes c)" using JSON_parse_render [of c] by auto
  from generateExecutionPlan_parsed [OF assms p] a steps_of_plan_value [of ss "denotes c"]
  show "fst (generateExecutionPlan env taskDescription lang w) = Returns (denotes c) \<and>
        steps_of (denotes c) = Some ss"
    by simp
next
  assume "t = payload ss"
  then have p: "JSON_parse t = Some (plan_json ss)" by (simp add: JSON_parse_payload)
  from generateExecutionPlan_parsed [OF assms p] steps_of_plan_json [of ss]
  show "\<exists>r. fst (generateExecutionPlan env taskDescription lang w) = Returns r \<and>
           steps_of r = Some ss"
    by simp
qed

theorem conforming_payload_steps_preserved_witness:
  "well_formed laidOut \<and>
   render laidOut =
     js ''{'' @ [0x0A] @ js '' \"steps\" : ['' @ [0x0A]
     @ js ''{\"risk\": \"Hallucinated fields\", \"'' @ [0x5C] @ js ''u0074itle\":\"Define types\",''
     @ js ''\"promptStrategy\":\"Ask for'' @ [0x5C] @ js ''ninterface only\",\"id\":1}'' @ [0x0A]
     @ js '']'' @ [0x0A] @ js ''}'' \<and>
   plan_value [\<lparr> title = js ''Define types'',
                 promptStrategy = js ''Ask for'' @ [0x0A] @ js ''interface only'',
                 risk = js ''Hallucinated fields'' \<rparr>] (denotes laidOut) \<and>
   fst (generateExecutionPlan (mock (Some (js ''key'')) (Resolved (Some (render laidOut))))
          task En fresh) = Returns (denotes laidOut) \<and>
   steps_of (denotes laidOut) =
     Some [\<lparr> title = js ''Define types'',
             promptStrategy = js ''Ask for'' @ [0x0A] @ js ''interface only'',
             risk = js ''Hallucinated fields'' \<rparr>] \<and>
   well_formed spaced \<and> render spaced = js ''{\"steps\": []}'' \<and>
   plan_value [] (denotes spaced) \<and>
   fst (generateExecutionPlan (mock (Some (js ''key'')) (Resolved (Some (js ''{\"steps\": []}''))))
          task Zh fresh) = Returns (denotes spaced) \<and>
   steps_of (denotes spaced) = Some [] \<and>
   scenarioA = payload [\<lparr> title = js ''Define types'',
          promptStrategy = js ''Ask for interface only'', risk = js ''Hallucinated fields'' \<rparr>] \<and>
   (\<exists>r. fst (generateExecutionPlan (mock (Some (js ''key'')) (Resolved (Some scenarioA)))
          task En fresh) = Returns r \<and>
        steps_of r = Some [\<lparr> title = js ''Define types'',
          promptStrategy = js ''Ask for interface only'', risk = js ''Hallucinated fields'' \<rparr>])"
proof -
  have r1: "generateContent (mock (Some (js ''key'')) (Resolved (Some (render laidOut))))
      (length (calls fresh)) (request task En) = Resolved (Some (render laidOut))"
    by simp
  have r2: "generateContent (mock (Some (js ''key'')) (Resolved (Some (js ''{\"steps\": []}''))))
      (length (calls fresh)) (request task Zh) = Resolved (Some (js ''{\"steps\": []}''))"
    by simp
  have r3: "generateContent (mock (Some (js ''key'')) (Resolved (Some scenarioA)))
      (length (calls fresh)) (request task En) = Resolved (Some scenarioA)"
    by simp
  note a = conforming_payload_steps_preserved [OF apiKey_mock_key r1, of laidOut
      "[\<lparr> title = js ''Define types'',
          promptStrategy = js ''Ask for'' @ [0x0A] @ js ''interface only'',
          risk = js ''Hallucinated fields'' \<rparr>]"]
  note b = conforming_payload_steps_preserved [OF apiKey_mock_key r2, of spaced "[]"]
  note c = conforming_payload_steps_preserved [OF apiKey_mock_key r3, of _
      "[\<lparr> title = js ''Define types'', promptStrategy = js ''Ask for interface only'',
          risk = js ''Hallucinated fields'' \<rparr>]"]
  from a b c well_formed_examples render_laidOut render_spaced plan_value_laidOut plan_value_spaced
    payload_scenarioA [symmetric]
  show ?thesis by blast
qed

text \<open>
  C4: when the call of the service is rejected, or the response's text is not valid
  JSON, \<open>generateExecutionPlan\<close> returns \<open>null\<close>, throws nothing to its caller, and
  writes one diagnostic entry, which carries the fault. The response has a text here:
  the empty body is the path of the \<open>!text\<close> test, which C5 is about.
\<close>

theorem fault_or_unparsable_gives_null_and_log:
  assumes "apiKey env \<noteq> []"
    and "generateContent env (length (calls w)) (request taskDescription lang) = Rejected reason \<or>
         generateContent env (length (calls w)) (request taskDescription lang) = Resolved (Some t) \<and>
           t \<noteq> [] \<and> JSON_parse t = None"
  shows "fst (generateExecutionPlan env taskDescription lang w) = Returns JNull \<and>
         (\<forall>e. fst (generateExecutionPlan env taskDescription lang w) \<noteq> Throws e) \<and>
         console (snd (generateExecutionPlan env taskDescription lang w)) =
           console w @
             [[LogString (js ''Error generating plan:''),
               LogError (case generateContent env (length (calls w)) (request taskDescription lang) of
                           Rejected r \<Rightarrow> ServiceError r
                         | Resolved b \<Rightarrow> SyntaxError)]]"
  using assms(2)
proof
  assume r: "generateContent env (length (calls w)) (request taskDescription lang) = Rejected reason"
  from generateExecutionPlan_rejected [OF assms(1) r] r show ?thesis by simp
next
  assume "generateContent env (length (calls w)) (request taskDescription lang) = Resolved (Some t) \<and>
           t \<noteq> [] \<and> JSON_parse t = None"
  then have r: "generateContent env (length (calls w)) (request taskDescription lang) = Resolved (Some t)"
    and "t \<noteq> []" and "JSON_parse t = None"
    by simp_all
  from generateExecutionPlan_unparsable [OF assms(1) this] r show ?thesis by simp
qed

theorem fault_or_unparsable_gives_null_and_log_witness:
  "fst (generateExecutionPlan (mock (Some (js ''key'')) (Rejected (js ''fetch failed'')))
          (js ''Add a login page'') En fresh) = Returns JNull \<and>
   console (snd (generateExecutionPlan (mock (Some (js ''key'')) (Rejected (js ''fetch failed'')))
          (js ''Add a login page'') En fresh)) =
     [[LogString (js ''Error generating plan:''), LogError (ServiceError (js ''fetch failed''))]] \<and>
   js ''Sorry, I cannot help'' \<noteq> [] \<and>
   JSON_parse (js ''Sorry, I cannot help'') = None \<and>
   fst (generateExecutionPlan (mock (Some (js ''key'')) (Resolved (Some (js ''Sorry, I cannot help''))))
          (js ''Add a login page'') En fresh) = Returns JNull \<and>
   console (snd (generateExecutionPlan (mock (Some (js ''key'')) (Resolved (Some (js ''Sorry, I cannot help''))))
          (js ''Add a login page'') En fresh)) =
     [[LogString (js ''Error generating plan:''), LogError SyntaxError]]"
proof -
  have ne: "js ''Sorry, I cannot help'' \<noteq> []" by (simp add: js_def)
  have a: "generateContent (mock (Some (js ''key'')) (Rejected (js ''fetch failed'')))
             (length (calls fresh)) (request (js ''Add a login page'') En) = Rejected (js ''fetch failed'') \<or>
           generateContent (mock (Some (js ''key'')) (Rejected (js ''fetch failed'')))
             (length (calls fresh)) (request (js ''Add a login page'') En) = Resolved (Some []) \<and>
             [] \<noteq> [] \<and> JSON_parse [] = None"
    by simp
  have b: "generateContent (mock (Some (js ''key'')) (Resolved (Some (js ''Sorry, I cannot help''))))
             (length (calls fresh)) (request (js ''Add a login page'') En) = Rejected [] \<or>
           generateContent (mock (Some (js ''key'')) (Resolved (Some (js ''Sorry, I cannot help''))))
             (length (calls fresh)) (request (js ''Add a login page'') En)
               = Resolved (Some (js ''Sorry, I cannot help'')) \<and>
             js ''Sorry, I cannot help'' \<noteq> [] \<and> JSON_parse (js ''Sorry, I cannot help'') = None"
    using ne parse_garbage by simp
  from fault_or_unparsable_gives_null_and_log [OF apiKey_mock_key a]
    fault_or_unparsable_gives_null_and_log [OF apiKey_mock_key b] ne parse_garbage
  show ?thesis by (auto simp: fresh_def)
qed

text \<open>
  C5, as stated: every failure path, the empty response body among them, writes a
  diagnostic entry. The code returns \<open>null\<close> on an empty body before the parser is
  reached, and writes nothing.
\<close>

theorem empty_body_is_not_logged_counterexample:
  "generateExecutionPlan (mock (Some (js ''key'')) (Resolved None)) task En fresh =
     (Returns JNull, \<lparr> calls = [request task En], console = [] \<rparr>) \<and>
   generateExecutionPlan (mock (Some (js ''key'')) (Resolved (Some []))) task En fresh =
     (Returns JNull, \<lparr> calls = [request task En], console = [] \<rparr>)"
  using generateExecutionPlan_no_text [OF apiKey_mock_key, of "Resolved None" fresh task En None]
    generateExecutionPlan_no_text [OF apiKey_mock_key, of "Resolved (Some [])" fresh task En "Some []"]
  by (simp add: fresh_def)

text \<open>
  C5, amended: when the credential is missing, one entry is written and nothing else
  happens; when the call is rejected or the text does not parse, the one request is
  made and one entry is written; when the response has no text or an empty text, the
  one request is made and nothing is written. No path has any other effect.
\<close>

theorem failure_paths_effects:
  "(apiKey env = [] \<longrightarrow>
      generateExecutionPlan env taskDescription lang w =
        (Returns JNull, w\<lparr>console := console w @ [[LogString (js ''API Key is missing'')]]\<rparr>)) \<and>
   (apiKey env \<noteq> [] \<and>
    generateContent env (length (calls w)) (request taskDescription lang) = Rejected reason \<longrightarrow>
      generateExecutionPlan env taskDescription lang w =
        (Returns JNull,
         w\<lparr>calls := calls w @ [request taskDescription lang],
           console := console w @
             [[LogString (js ''Error generating plan:''), LogError (ServiceError reason)]]\<rparr>)) \<and>
   (apiKey env \<noteq> [] \<and>
    generateContent env (length (calls w)) (request taskDescription lang) = Resolved (Some t) \<and>
    t \<noteq> [] \<and> JSON_parse t = None \<longrightarrow>
      generateExecutionPlan env taskDescription lang w =
        (Returns JNull,
         w\<lparr>calls := calls w @ [request taskDescription lang],
           console := console w @
             [[LogString (js ''Error generating plan:''), LogError SyntaxError]]\<rparr>)) \<and>
   (apiKey env \<noteq> [] \<and>
    (generateContent env (length (calls w)) (request taskDescription lang) = Resolved None \<or>
     generateContent env (length (calls w)) (request taskDescription lang) = Resolved (Some [])) \<longrightarrow>
      generateExecutionPlan env taskDescription lang w =
        (Returns JNull, w\<lparr>calls := calls w @ [request taskDescription lang]\<rparr>))"
  using generateExecutionPlan_no_key [of env taskDescription lang w]
    generateExecutionPlan_rejected [of env w taskDescription lang reason]
    generateExecutionPlan_unparsable [of env w taskDescription lang t]
    generateExecutionPlan_no_text [of env w taskDescription lang None]
    generateExecutionPlan_no_text [of env w taskDescription lang "Some []"]
  by blast

theorem failure_paths_effects_witness:
  "generateExecutionPlan (mock None (Resolved (Some scenarioA))) (js ''Add a login page'') En fresh =
     (Returns JNull, \<lparr> calls = [], console = [[LogString (js ''API Key is missing'')]] \<rparr>) \<and>
   generateExecutionPlan (mock (Some (js ''key'')) (Rejected (js ''fetch failed'')))
       (js ''Add a login page'') En fresh =
     (Returns JNull,
      \<lparr> calls = [request (js ''Add a login page'') En],
        console = [[LogString (js ''Error generating plan:''),
                    LogError (ServiceError (js ''fetch failed''))]] \<rparr>) \<and>
   generateExecutionPlan (mock (Some (js ''key'')) (Resolved (Some (js ''Sorry, I cannot help''))))
       (js ''Add a login page'') En fresh =
     (Returns JNull,
      \<lparr> calls = [request (js ''Add a login page'') En],
        console = [[LogString (js ''Error generating plan:''), LogError SyntaxError]] \<rparr>) \<and>
   generateExecutionPlan (mock (Some (js ''key'')) (Resolved None))
       (js ''Add a login page'') En fresh =
     (Returns JNull, \<lparr> calls = [request (js ''Add a login page'') En], console = [] \<rparr>)"
proof -
  have ne: "js ''Sorry, I cannot help'' \<noteq> []" by (simp add: js_def)
  note k = apiKey_mock_key
  from failure_paths_effects [of "mock None (Resolved (Some scenarioA))" "js ''Add a login page''" En fresh]
  have 1: "generateExecutionPlan (mock None (Resolved (Some scenarioA))) (js ''Add a login page'') En fresh =
     (Returns JNull, \<lparr> calls = [], console = [[LogString (js ''API Key is missing'')]] \<rparr>)"
    by (simp add: fresh_def)
  from failure_paths_effects [of "mock (Some (js ''key'')) (Rejected (js ''fetch failed''))"
      "js ''Add a login page''" En fresh "js ''fetch failed''"] k
  have 2: "generateExecutionPlan (mock (Some (js ''key'')) (Rejected (js ''fetch failed'')))
       (js ''Add a login page'') En fresh =
     (Returns JNull,
      \<lparr> calls = [request (js ''Add a login page'') En],
        console = [[LogString (js ''Error generating plan:''),
                    LogError (ServiceError (js ''fetch failed''))]] \<rparr>)"
    by (simp add: fresh_def)
  from failure_paths_effects [of "mock (Some (js ''key'')) (Resolved (Some (js ''Sorry, I cannot help'')))"
      "js ''Add a login page''" En fresh _ "js ''Sorry, I cannot help''"] k ne parse_garbage
  have 3: "generateExecutionPlan (mock (Some (js ''key'')) (Resolved (Some (js ''Sorry, I cannot help''))))
       (js ''Add a login page'') En fresh =
     (Returns JNull,
      \<lparr> calls = [request (js ''Add a login page'') En],
        console = [[LogString (js ''Error generating plan:''), LogError SyntaxError]] \<rparr>)"
    by (simp add: fresh_def)
  from failure_paths_effects [of "mock (Some (js ''key'')) (Resolved None)" "js ''Add a login page''" En fresh] k
  have 4: "generateExecutionPlan (mock (Some (js ''key'')) (Resolved None))
       (js ''Add a login page'') En fresh =
     (Returns JNull, \<lparr> calls = [request (js ''Add a login page'') En], console = [] \<rparr>)"
    by (simp add: fresh_def)
  from 1 2 3 4 show ?thesis by blast
qed

text \<open>
  C6: with the credential present, a call of \<open>generateExecutionPlan\<close> hands exactly
  one request to the service, whatever the service answers.
\<close>

theorem exactly_one_call_with_credential:
  assumes "apiKey env \<noteq> []"
  shows "calls (snd (generateExecutionPlan env taskDescription lang w)) =
           calls w @ [request taskDescription lang] \<and>
         length (calls (snd (generateExecutionPlan env taskDescription lang w))) =
           length (calls w) + 1"
  using assms
  by (auto simp: generateExecutionPlan_def try_block_def Let_def
           split: reply.splits option.splits)

theorem exactly_one_call_with_credential_witness:
  "apiKey (mock (Some (js ''key'')) (Rejected (js ''fetch failed''))) \<noteq> [] \<and>
   calls (snd (generateExecutionPlan (mock (Some (js ''key'')) (Rejected (js ''fetch failed'')))
      (js ''Add a login page'') Zh fresh)) = [request (js ''Add a login page'') Zh] \<and>
   length (calls (snd (generateExecutionPlan (mock (Some (js ''key'')) (Rejected (js ''fetch failed'')))
      (js ''Add a login page'') Zh fresh))) = 1"
  using exactly_one_call_with_credential [OF apiKey_mock_key, of "Rejected (js ''fetch failed'')" "js ''Add a login page''" Zh fresh]
    apiKey_mock_key [of "Rejected (js ''fetch failed'')"]
  by (simp add: fresh_def)

text \<open>
  C7: for every task description and language, the request asks for JSON that is an
  object with the one field \<open>steps\<close>, an array of objects whose fields \<open>title\<close>,
  \<open>promptStrategy\<close> and \<open>risk\<close> are strings and are all required; with the
  credential present this is the request that is sent.
\<close>

theorem request_carries_response_schema:
  "responseSchema (config (request taskDescription lang)) =
     Schema OBJECT
       (Some [(js ''steps'',
               Schema ARRAY None
                 (Some (Schema OBJECT
                    (Some [(js ''title'', Schema STRING None None None),
                           (js ''promptStrategy'', Schema STRING None None None),
                           (js ''risk'', Schema STRING None None None)])
                    None
                    (Some [js ''title'', js ''promptStrategy'', js ''risk''])))
                 None)])
       None None \<and>
   responseMimeType (config (request taskDescription lang)) = js ''application/json'' \<and>
   (apiKey env \<noteq> [] \<longrightarrow>
      calls (snd (generateExecutionPlan env taskDescription lang w)) =
        calls w @ [request taskDescription lang])"
  by (auto simp: request_def planSchema_def stepSchema_def generateExecutionPlan_def
        try_block_def Let_def split: reply.splits option.splits)

theorem request_carries_response_schema_witness:
  "apiKey (mock (Some (js ''key'')) (Resolved (Some scenarioA))) \<noteq> [] \<and>
   (\<exists>req. calls (snd (generateExecutionPlan (mock (Some (js ''key'')) (Resolved (Some scenarioA)))
              (js ''Add a login page'') Zh fresh)) = [req] \<and>
          type (responseSchema (config req)) = OBJECT \<and>
          map fst (the (properties (responseSchema (config req)))) = [js ''steps''] \<and>
          required (the (items (snd (hd (the (properties (responseSchema (config req)))))))) =
            Some [js ''title'', js ''promptStrategy'', js ''risk''])"
  using request_carries_response_schema [of "js ''Add a login page''" Zh "mock (Some (js ''key'')) (Resolved (Some scenarioA))" fresh]
    apiKey_mock_key [of "Resolved (Some scenarioA)"]
  by (simp add: fresh_def)

section \<open>Properties of PlannerTool\<close>

text \<open>
  C8: after every sequence of events, while an execution of \<open>handlePlan\<close> waits for
  its request the button is disabled and a click starts nothing, so at most one
  request is in flight; and when \<open>handlePlan\<close> starts a request, the plan and the
  error shown before are cleared.
\<close>

theorem in_flight_disables_submit_and_start_clears:
  "(awaiting (run env (mount l w) evs) \<noteq> [] \<longrightarrow>
      disabled (state (run env (mount l w) evs)) \<and>
      step env (run env (mount l w) evs) Click = run env (mount l w) evs) \<and>
   length (awaiting (run env (mount l w) evs)) \<le> 1 \<and>
   (trim (input (state c)) \<noteq> [] \<longrightarrow>
      plan (state (handlePlan env c)) = JNull \<and> error (state (handlePlan env c)) = None \<and>
      loading (state (handlePlan env c)) \<and> awaiting (handlePlan env c) \<noteq> [])"
  using consistent_reachable [of env l w evs] handlePlan_begins [of c env]
  by (auto simp: consistent_def disabled_def)

theorem in_flight_disables_submit_and_start_clears_witness:
  "awaiting (run (mock (Some (js ''key'')) (Resolved (Some scenarioA))) (mount En fresh)
      [Change task, Click]) \<noteq> [] \<and>
   disabled (state (run (mock (Some (js ''key'')) (Resolved (Some scenarioA))) (mount En fresh)
      [Change task, Click])) \<and>
   run (mock (Some (js ''key'')) (Resolved (Some scenarioA))) (mount En fresh)
      [Change task, Click, Click] =
     run (mock (Some (js ''key'')) (Resolved (Some scenarioA))) (mount En fresh)
      [Change task, Click] \<and>
   trim (input (state (run (mock (Some (js ''key'')) (Resolved (Some scenarioA))) (mount En fresh)
      [Change task, Click, Settle]))) \<noteq> [] \<and>
   plan (state (run (mock (Some (js ''key'')) (Resolved (Some scenarioA))) (mount En fresh)
      [Change task, Click, Settle])) \<noteq> JNull \<and>
   plan (state (run (mock (Some (js ''key'')) (Resolved (Some scenarioA))) (mount En fresh)
      [Change task, Click, Settle, Click])) = JNull \<and>
   error (state (run (mock (Some (js ''key'')) (Resolved (Some scenarioA))) (mount En fresh)
      [Change task, Click, Settle, Click])) = None"
proof -
  let ?env = "mock (Some (js ''key'')) (Resolved (Some scenarioA))"
  have a: "awaiting (run ?env (mount En fresh) [Change task, Click]) \<noteq> []"
    by (simp add: run_clicked)
  have t: "trim (input (state (run ?env (mount En fresh) [Change task, Click, Settle]))) \<noteq> []"
    by (simp add: run_settled trim_task task_not_empty)
  have p: "plan (state (run ?env (mount En fresh) [Change task, Click, Settle])) \<noteq> JNull"
    by (simp add: run_settled planA_def)
  have c2: "run ?env (mount En fresh) [Change task, Click, Click] =
      step ?env (run ?env (mount En fresh) [Change task, Click]) Click"
    by (simp add: run_def)
  have c4: "run ?env (mount En fresh) [Change task, Click, Settle, Click] =
      handlePlan ?env (run ?env (mount En fresh) [Change task, Click, Settle])"
    by (simp add: run_def mount_def disabled_def handlePlan_def handlePlan_resume_def
          trim_task task_not_empty mockA planA_def)
  from in_flight_disables_submit_and_start_clears [of ?env En fresh "[Change task, Click]"
      "run ?env (mount En fresh) [Change task, Click, Settle]"] a t p c2 c4
  show ?thesis by simp
qed

text \<open>
  C9: when the trimmed input is empty, \<open>handlePlan\<close> returns at once: no request is
  made, and \<open>loading\<close>, \<open>plan\<close> and \<open>error\<close> stay as they were.
\<close>

theorem blank_input_handlePlan_does_nothing:
  "trim (input (state c)) = [] \<Longrightarrow>
   handlePlan env c = c \<and>
   calls (world (handlePlan env c)) = calls (world c) \<and>
   awaiting (handlePlan env c) = awaiting c \<and>
   loading (state (handlePlan env c)) = loading (state c) \<and>
   plan (state (handlePlan env c)) = plan (state c) \<and>
   error (state (handlePlan env c)) = error (state c)"
  by (simp add: handlePlan_def)

theorem blank_input_handlePlan_does_nothing_witness:
  "trim (input (state (run (mock (Some (js ''key'')) (Resolved (Some scenarioA))) (mount En fresh)
      [Change task, Click, Settle, Change blank]))) = [] \<and>
   \<not> disabled (state (run (mock (Some (js ''key'')) (Resolved (Some scenarioA))) (mount En fresh)
      [Change task, Click, Settle, Change blank])) \<and>
   handlePlan (mock (Some (js ''key'')) (Resolved (Some scenarioA)))
     (run (mock (Some (js ''key'')) (Resolved (Some scenarioA))) (mount En fresh)
        [Change task, Click, Settle, Change blank]) =
     \<lparr> state = \<lparr> input = blank, plan = planA, loading = False, error = None \<rparr>,
       props_lang = En, awaiting = [],
       world = \<lparr> calls = [request task En], console = [] \<rparr> \<rparr>"
proof -
  let ?env = "mock (Some (js ''key'')) (Resolved (Some scenarioA))"
  have r: "run ?env (mount En fresh) [Change task, Click, Settle, Change blank] =
     \<lparr> state = \<lparr> input = blank, plan = planA, loading = False, error = None \<rparr>,
       props_lang = En, awaiting = [],
       world = \<lparr> calls = [request task En], console = [] \<rparr> \<rparr>"
  proof -
    have "run ?env (mount En fresh) [Change task, Click, Settle, Change blank] =
        step ?env (run ?env (mount En fresh) [Change task, Click, Settle]) (Change blank)"
      by (simp add: run_def)
    then show ?thesis unfolding run_settled by simp
  qed
  have t: "trim (input (state (run ?env (mount En fresh) [Change task, Click, Settle, Change blank]))) = []"
    by (simp add: r trim_blank)
  have d: "\<not> disabled (state (run ?env (mount En fresh) [Change task, Click, Settle, Change blank]))"
    unfolding r by (simp add: disabled_def blank_def)
  from blank_input_handlePlan_does_nothing [OF t, of ?env] t d r show ?thesis by simp
qed

text \<open>
  C10: the plan and the error are never both set: not after any sequence of events on
  a mounted component, and not after an execution of \<open>handlePlan\<close> that ran to its
  end from any state with nothing in flight, which leaves exactly one of them set.
\<close>

theorem plan_and_error_never_both:
  "(plan (state (run env (mount l w) evs)) = JNull \<or>
    error (state (run env (mount l w) evs)) = None) \<and>
   (trim (input (state c)) \<noteq> [] \<and> awaiting c = [] \<longrightarrow>
      (plan (state (handlePlan_resume (handlePlan env' c))) = JNull \<or>
       error (state (handlePlan_resume (handlePlan env' c))) = None) \<and>
      (plan (state (handlePlan_resume (handlePlan env' c))) \<noteq> JNull) =
        (error (state (handlePlan_resume (handlePlan env' c))) = None) \<and>
      \<not> loading (state (handlePlan_resume (handlePlan env' c))))"
  using consistent_reachable [of env l w evs] handlePlan_completes [of c env']
  by (auto simp: consistent_def split: if_splits)


theorem plan_and_error_never_both_witness:
  "plan (state (run (mock (Some (js ''key'')) (Resolved (Some scenarioA))) (mount En fresh)
      [Change task, Click, Settle])) = planA \<and>
   error (state (run (mock (Some (js ''key'')) (Resolved (Some scenarioA))) (mount En fresh)
      [Change task, Click, Settle])) = None \<and>
   trim (input (state (run (mock (Some (js ''key'')) (Resolved (Some scenarioA))) (mount En fresh)
      [Change task, Click, Settle]))) \<noteq> [] \<and>
   awaiting (run (mock (Some (js ''key'')) (Resolved (Some scenarioA))) (mount En fresh)
      [Change task, Click, Settle]) = [] \<and>
   plan (state (handlePlan_resume (handlePlan (mock None (Resolved (Some scenarioA)))
      (run (mock (Some (js ''key'')) (Resolved (Some scenarioA))) (mount En fresh)
         [Change task, Click, Settle])))) = JNull \<and>
   error (state (handlePlan_resume (handlePlan (mock None (Resolved (Some scenarioA)))
      (run (mock (Some (js ''key'')) (Resolved (Some scenarioA))) (mount En fresh)
         [Change task, Click, Settle])))) = Some (t_error En)"
proof -
  let ?env = "mock (Some (js ''key'')) (Resolved (Some scenarioA))"
  let ?c = "run ?env (mount En fresh) [Change task, Click, Settle]"
  have t: "trim (input (state ?c)) \<noteq> []"
    by (simp add: run_settled trim_task task_not_empty)
  have a: "awaiting ?c = []"
    by (simp add: run_settled)
  have e: "error (state (handlePlan_resume (handlePlan (mock None (Resolved (Some scenarioA))) ?c)))
      = Some (t_error En)"
    unfolding run_settled
    by (simp add: handlePlan_def handlePlan_resume_def trim_task task_not_empty
          generateExecutionPlan_no_key)
  from plan_and_error_never_both [of ?env En fresh "[Change task, Click, Settle]" ?c
      "mock None (Resolved (Some scenarioA))"] t a e
  show ?thesis by (simp add: run_settled)
qed

end
